theory Spec2Isabelle
  imports Main "HOL-Library.Word"
begin

section \<open>Strings of the program\<close>

text \<open>
  A string of the program is a sequence of 16-bit code units. The regular expressions of
  \<^verbatim>\<open>parseDemographicResponse\<close> carry no flag, so they work on code units, and \<^verbatim>\<open>.\<close>
  stops at the four line terminators, two of which lie beyond Latin-1. String literals of
  the source are ASCII and are written through \<open>str\<close>.
\<close>

type_synonym codeUnit = "16 word"
type_synonym jsstring = "codeUnit list"

definition str :: "string \<Rightarrow> jsstring" where
  "str s = map of_char s"

definition isLineTerminator :: "codeUnit \<Rightarrow> bool" where
  "isLineTerminator c = (c = 0x000A \<or> c = 0x000D \<or> c = 0x2028 \<or> c = 0x2029)"

text \<open>The white space of \<^verbatim>\<open>String.prototype.trim\<close>: WhiteSpace and LineTerminator.\<close>

definition isWhiteSpace :: "codeUnit \<Rightarrow> bool" where
  "isWhiteSpace c =
     (c = 0x0009 \<or> c = 0x000B \<or> c = 0x000C \<or> c = 0x0020 \<or> c = 0x00A0 \<or> c = 0xFEFF \<or>
      c = 0x1680 \<or> (0x2000 \<le> c \<and> c \<le> 0x200A) \<or> c = 0x202F \<or> c = 0x205F \<or> c = 0x3000)"

definition trim :: "jsstring \<Rightarrow> jsstring" where
  "trim s =
     (let ws = (\<lambda>c. isWhiteSpace c \<or> isLineTerminator c)
      in rev (dropWhile ws (rev (dropWhile ws s))))"

text \<open>\<^verbatim>\<open>\d\<close> without the unicode flag: the ten ASCII digits.\<close>

definition isDigit :: "codeUnit \<Rightarrow> bool" where
  "isDigit c = (0x0030 \<le> c \<and> c \<le> 0x0039)"

definition percentSign :: codeUnit where
  "percentSign = 0x0025"

section \<open>Numbers of the program\<close>

text \<open>
  A Number is an IEEE double. The numbers this program computes are the results of
  \<^verbatim>\<open>parseInt\<close> on a digit string and sums of two of them: integers, or an infinity when
  the digits denote more than a double can hold. \<open>number\<close> is that part of the doubles:
  the integral values (the sign of zero is not kept), both infinities and NaN.
  \<open>roundToDouble\<close> is the Number value of a natural number: round to nearest, ties to
  even, on a 53-bit significand; from \<open>2 ^ 1024\<close> on the result is infinite. (Past 20
  significant digits the language lets \<^verbatim>\<open>parseInt\<close> approximate; the model takes the
  correctly rounded value.)
\<close>

datatype number = NaN | Num int | PosInfinity | NegInfinity

fun bitLength :: "nat \<Rightarrow> nat" where
  "bitLength n = (if n = 0 then 0 else Suc (bitLength (n div 2)))"

declare bitLength.simps [simp del]

definition roundToDouble :: "nat \<Rightarrow> number" where
  "roundToDouble n =
     (let e = bitLength n - 53;
          q = n div 2 ^ e;
          r = n mod 2 ^ e;
          q' = (if 2 ^ e < 2 * r \<or> (2 * r = 2 ^ e \<and> odd q) then q + 1 else q);
          v = q' * 2 ^ e
      in if 2 ^ 1024 \<le> v then PosInfinity else Num (int v))"

definition negate :: "number \<Rightarrow> number" where
  "negate x = (case x of NaN \<Rightarrow> NaN | Num i \<Rightarrow> Num (- i)
                 | PosInfinity \<Rightarrow> NegInfinity | NegInfinity \<Rightarrow> PosInfinity)"

definition toNumber :: "int \<Rightarrow> number" where
  "toNumber i = (if 0 \<le> i then roundToDouble (nat i) else negate (roundToDouble (nat (- i))))"

text \<open>The operator \<^verbatim>\<open>+\<close> on two Numbers.\<close>

fun plus_number :: "number \<Rightarrow> number \<Rightarrow> number" where
  "plus_number NaN _ = NaN"
| "plus_number _ NaN = NaN"
| "plus_number PosInfinity NegInfinity = NaN"
| "plus_number NegInfinity PosInfinity = NaN"
| "plus_number PosInfinity _ = PosInfinity"
| "plus_number _ PosInfinity = PosInfinity"
| "plus_number NegInfinity _ = NegInfinity"
| "plus_number _ NegInfinity = NegInfinity"
| "plus_number (Num a) (Num b) = toNumber (a + b)"

text \<open>
  \<^verbatim>\<open>parseInt(s)\<close> with no radix, for a string that starts with neither white space, a sign
  nor \<^verbatim>\<open>0x\<close>: the longest prefix of decimal digits is read in radix 10, and NaN is the
  result when that prefix is empty. The only argument the program passes is capture group 1
  of a pattern, a non-empty run of ASCII digits.
\<close>

definition digitValue :: "codeUnit \<Rightarrow> nat" where
  "digitValue c = unat c - 48"

definition mathInt :: "jsstring \<Rightarrow> nat" where
  "mathInt ds = foldl (\<lambda>a c. 10 * a + digitValue c) 0 ds"

definition parseInt :: "jsstring \<Rightarrow> number" where
  "parseInt s =
     (let Z = takeWhile isDigit s
      in if Z = [] then NaN else roundToDouble (mathInt Z))"

section \<open>The patterns \<^verbatim>\<open>/L.*?(\d+)%/\<close>\<close>

text \<open>
  Every regular expression of \<^verbatim>\<open>parseDemographicResponse\<close> is a literal label \<open>L\<close>,
  then \<^verbatim>\<open>.*?\<close>, then the group \<^verbatim>\<open>(\d+)\<close>, then \<^verbatim>\<open>%\<close>; a pattern is given by its
  label. The functions follow the backtracking matcher: each returns capture group 1 of
  the first alternative that succeeds, in the order the matcher tries them.
\<close>

text \<open>The literal, one code unit after the other; the result is the rest of the input.\<close>

fun matchLiteral :: "jsstring \<Rightarrow> jsstring \<Rightarrow> jsstring option" where
  "matchLiteral [] s = Some s"
| "matchLiteral (p # ps) [] = None"
| "matchLiteral (p # ps) (c # cs) = (if p = c then matchLiteral ps cs else None)"

text \<open>
  \<^verbatim>\<open>(\d+)%\<close> at the head of the input. The quantifier is greedy: after a digit it first
  tries to take more digits, and only when that fails does it stop and ask for \<^verbatim>\<open>%\<close>.
\<close>

fun matchDigitsPercent :: "jsstring \<Rightarrow> jsstring option" where
  "matchDigitsPercent [] = None"
| "matchDigitsPercent (c # cs) =
     (if isDigit c then
        (case matchDigitsPercent cs of
           Some ds \<Rightarrow> Some (c # ds)
         | None \<Rightarrow>
             (case cs of
                [] \<Rightarrow> None
              | p # _ \<Rightarrow> if p = percentSign then Some [c] else None))
      else None)"

text \<open>
  \<^verbatim>\<open>.*?(\d+)%\<close> at the head of the input. The quantifier is lazy: it first tries the rest
  of the pattern where it stands, and only when that fails does it take one more code unit,
  which must not be a line terminator.
\<close>

fun matchLazy :: "jsstring \<Rightarrow> jsstring option" where
  "matchLazy [] = matchDigitsPercent []"
| "matchLazy (c # cs) =
     (case matchDigitsPercent (c # cs) of
        Some ds \<Rightarrow> Some ds
      | None \<Rightarrow> if isLineTerminator c then None else matchLazy cs)"

definition matchHere :: "jsstring \<Rightarrow> jsstring \<Rightarrow> jsstring option" where
  "matchHere L s = (case matchLiteral L s of None \<Rightarrow> None | Some rest \<Rightarrow> matchLazy rest)"

text \<open>
  \<^verbatim>\<open>text.match(pattern)\<close> for a pattern without the global flag: the start index runs
  from 0 to the length of the text, and the first index where the pattern matches decides.
\<close>

fun regexMatch :: "jsstring \<Rightarrow> jsstring \<Rightarrow> jsstring option" where
  "regexMatch L [] = matchHere L []"
| "regexMatch L (c # cs) =
     (case matchHere L (c # cs) of Some ds \<Rightarrow> Some ds | None \<Rightarrow> regexMatch L cs)"

section \<open>\<^verbatim>\<open>parseDemographicResponse\<close>\<close>

definition extractPercentage :: "jsstring \<Rightarrow> jsstring \<Rightarrow> number" where
  "extractPercentage text' pattern =
     (case regexMatch pattern text' of Some m1 \<Rightarrow> parseInt m1 | None \<Rightarrow> Num 0)"

text \<open>An object literal \<^verbatim>\<open>Record<string, number>\<close>: its properties in the order written.\<close>

type_synonym numberRecord = "(jsstring \<times> number) list"

record DemographicData =
  age :: numberRecord
  gender :: numberRecord
  pregnancyStatus :: numberRecord
  geography :: numberRecord
  criticalFindings :: "jsstring list"

definition parseDemographicResponse :: "jsstring \<Rightarrow> DemographicData" where
  "parseDemographicResponse response =
     \<lparr> age =
         [ (str ''0-18'', extractPercentage response (str ''Pediatric'')),
           (str ''18-40'', extractPercentage response (str ''Young Adults'')),
           (str ''40-65'', extractPercentage response (str ''Middle-aged Adults'')),
           (str ''65-75'', extractPercentage response (str ''Elderly (65-75)'')),
           (str ''>75'', extractPercentage response (str ''Very Elderly'')),
           (str ''not_specified'', Num 0) ],
       gender =
         [ (str ''male'', extractPercentage response (str ''Male'')),
           (str ''female'', extractPercentage response (str ''Female'')),
           (str ''not_specified'', extractPercentage response (str ''Gender not reported'')) ],
       pregnancyStatus =
         [ (str ''pregnant'', extractPercentage response (str ''Pregnant individuals'')),
           (str ''not_pregnant'', Num 0),
           (str ''not_specified'',
              extractPercentage response (str ''Pregnancy status not mentioned'')) ],
       geography =
         [ (str ''North America'', extractPercentage response (str ''North America'')),
           (str ''Europe'', extractPercentage response (str ''Europe'')),
           (str ''Asia'', extractPercentage response (str ''Asia'')),
           (str ''Africa'', extractPercentage response (str ''Africa'')),
           (str ''Other'',
              plus_number (extractPercentage response (str ''South America''))
                (extractPercentage response (str ''Oceania''))),
           (str ''not_specified'', Num 0) ],
       criticalFindings =
         [ str ''Complete exclusion of pediatric populations'',
           str ''Systematic exclusion of pregnant individuals'',
           str ''Severe underrepresentation of very elderly (>75)'',
           str ''Complete absence of African populations'',
           str ''Geographic bias toward Western/developed nations'' ] \<rparr>"

text \<open>Reading a property: \<open>None\<close> is \<^verbatim>\<open>undefined\<close>, the key is absent.\<close>

definition getProp :: "numberRecord \<Rightarrow> jsstring \<Rightarrow> number option" where
  "getProp r k = map_of r k"

definition ownKeys :: "numberRecord \<Rightarrow> jsstring list" where
  "ownKeys r = map fst r"

section \<open>The canned analysis of \<^verbatim>\<open>callLLM\<close>\<close>

text \<open>
  The template literal of the mock path. It opens with a line break, holds the 38 lines
  below, and closes with a line break and the two spaces that indent the closing
  backquote; \<^verbatim>\<open>.trim()\<close> is applied to it.
\<close>

definition mockBody :: string where
  "mockBody =
     ''Based on the analysis of the provided research papers:\<newline>'' @
     ''\<newline>'' @
     ''**Age Demographics:**\<newline>'' @
     ''- Pediatric (0-18): 0% - No studies included children or adolescents\<newline>'' @
     ''- Young Adults (18-40): 15% - Limited representation\<newline>'' @
     ''- Middle-aged Adults (40-65): 60% - Well represented\<newline>'' @
     ''- Elderly (65-75): 45% - Moderate representation\<newline>'' @
     ''- Very Elderly (>75): 8% - Significantly underrepresented\<newline>'' @
     ''\<newline>'' @
     ''**Gender Demographics:**\<newline>'' @
     ''- Male: 42%\<newline>'' @
     ''- Female: 48%\<newline>'' @
     ''- Gender not reported: 10%\<newline>'' @
     ''\<newline>'' @
     ''**Pregnancy Status:**\<newline>'' @
     ''- Pregnant individuals: 0% - Systematically excluded\<newline>'' @
     ''- Pregnancy status not mentioned: 100%\<newline>'' @
     ''\<newline>'' @
     ''**Geographic Distribution:**\<newline>'' @
     ''- North America: 52% (predominantly USA-based studies)\<newline>'' @
     ''- Europe: 28% (Western Europe overrepresented)\<newline>'' @
     ''- Asia: 12% (primarily China and Japan)\<newline>'' @
     ''- Africa: 0% - No representation\<newline>'' @
     ''- South America: 3%\<newline>'' @
     ''- Oceania: 5%\<newline>'' @
     ''\<newline>'' @
     ''**Critical Blind Spots Identified:**\<newline>'' @
     ''1. Complete exclusion of pediatric populations (CRITICAL)\<newline>'' @
     ''2. Systematic exclusion of pregnant individuals (CRITICAL)\<newline>'' @
     ''3. Severe underrepresentation of very elderly (>75) despite disease relevance (HIGH)\<newline>'' @
     ''4. Complete absence of African populations (CRITICAL)\<newline>'' @
     ''5. Minimal representation of young adults 18-40 (MEDIUM)\<newline>'' @
     ''6. Geographic bias toward Western/developed nations (HIGH)\<newline>'' @
     ''\<newline>'' @
     ''**Methodological Quality Issues:**\<newline>'' @
     ''- 15% of studies failed to report demographic breakdowns\<newline>'' @
     ''- 30% used convenience sampling without demographic stratification\<newline>'' @
     ''- Only 5% included explicit efforts to recruit underrepresented populations''"

definition mockTemplate :: jsstring where
  "mockTemplate = str (''\<newline>'' @ mockBody @ ''\<newline>  '')"

definition mockResponse :: jsstring where
  "mockResponse = trim mockTemplate"

section \<open>\<^verbatim>\<open>callLLM\<close>\<close>

text \<open>
  What the module does to the outside is kept as a list of effects, in order: a line on
  the console, a call of \<^verbatim>\<open>llm.invoke\<close> with its messages, a timer of so many
  milliseconds that the function awaits.
\<close>

datatype message = SystemMessage jsstring | HumanMessage jsstring

datatype effect =
    ConsoleLog
  | ConsoleWarn
  | ConsoleError
  | Invoke "message list"
  | SetTimeout nat

record LLMResponse =
  content :: jsstring
  model :: "jsstring option"
  tokensUsed :: "number option"

text \<open>
  The value \<^verbatim>\<open>llm.invoke\<close> resolves to, as far as \<^verbatim>\<open>callLLM\<close> reads it: the content,
  a string or something else (\<open>'j\<close>), and the two places of the token count. The client is
  its \<^verbatim>\<open>invoke\<close>: \<open>Inl e\<close> is the call throwing \<open>e\<close>.
\<close>

record 'j AIMessage =
  messageContent :: "jsstring + 'j"
  usageMetadataTotalTokens :: "number option"
  responseMetadataUsageTotalTokens :: "number option"

type_synonym ('e, 'j) ChatAnthropic = "message list \<Rightarrow> 'e + 'j AIMessage"

text \<open>\<^verbatim>\<open>process.env\<close>: a variable that is not set reads as \<^verbatim>\<open>undefined\<close>.\<close>

type_synonym env = "jsstring \<Rightarrow> jsstring option"

definition modelName :: "env \<Rightarrow> jsstring" where
  "modelName env =
     (case env (str ''LLM_MODEL'') of
        Some m \<Rightarrow> m
      | None \<Rightarrow> str ''claude-3-5-sonnet-20241022'')"

text \<open>\<^verbatim>\<open>!process.env.ANTHROPIC_API_KEY\<close>: the empty string is falsy as well.\<close>

definition useMockLLM :: "env \<Rightarrow> bool" where
  "useMockLLM env =
     (case env (str ''ANTHROPIC_API_KEY'') of None \<Rightarrow> True | Some k \<Rightarrow> k = [])"

text \<open>
  Loading the module: the warning, then the client. \<open>newChatAnthropic\<close> is the constructor,
  given the model name and the key (the temperature is a constant of the call); it may throw.
\<close>

definition initLLM ::
  "env \<Rightarrow> (jsstring \<Rightarrow> jsstring option \<Rightarrow> 'e + ('e, 'j) ChatAnthropic) \<Rightarrow>
   effect list \<times> ('e, 'j) ChatAnthropic option" where
  "initLLM env newChatAnthropic =
     (if useMockLLM env then ([ConsoleWarn], None)
      else
        (case newChatAnthropic (modelName env) (env (str ''ANTHROPIC_API_KEY'')) of
           Inr client \<Rightarrow> ([ConsoleLog], Some client)
         | Inl e \<Rightarrow> ([ConsoleError, ConsoleWarn], None)))"

text \<open>\<^verbatim>\<open>if (tokensUsed)\<close>.\<close>

definition truthy :: "number option \<Rightarrow> bool" where
  "truthy v =
     (case v of
        None \<Rightarrow> False
      | Some NaN \<Rightarrow> False
      | Some (Num i) \<Rightarrow> i \<noteq> 0
      | Some _ \<Rightarrow> True)"

definition buildMessages :: "jsstring \<Rightarrow> jsstring option \<Rightarrow> message list" where
  "buildMessages prompt system =
     (case system of
        None \<Rightarrow> []
      | Some s \<Rightarrow> if s = [] then [] else [SystemMessage s]) @ [HumanMessage prompt]"

text \<open>
  The body of the \<^verbatim>\<open>try\<close> block. \<open>Inl e\<close> is an exception leaving the block: from
  \<^verbatim>\<open>llm.invoke\<close>, or from \<^verbatim>\<open>JSON.stringify\<close> (the parameter \<open>stringify\<close>) on a content
  that is not a string.
\<close>

definition liveCall ::
  "jsstring \<Rightarrow> ('j \<Rightarrow> 'e + jsstring) \<Rightarrow> ('e, 'j) ChatAnthropic \<Rightarrow> jsstring \<Rightarrow>
   jsstring option \<Rightarrow> effect list \<times> ('e + LLMResponse)" where
  "liveCall name stringify llm prompt system =
     (let messages = buildMessages prompt system;
          before = [ConsoleLog, ConsoleLog, Invoke messages]
      in case llm messages of
           Inl e \<Rightarrow> (before, Inl e)
         | Inr response \<Rightarrow>
             (let used =
                    (case usageMetadataTotalTokens response of
                       Some n \<Rightarrow> Some n
                     | None \<Rightarrow> responseMetadataUsageTotalTokens response);
                  fx = before @ [ConsoleLog] @ (if truthy used then [ConsoleLog] else [])
                         @ [ConsoleLog]
              in case messageContent response of
                   Inl s \<Rightarrow>
                     (fx, Inr \<lparr> content = s, model = Some name, tokensUsed = used \<rparr>)
                 | Inr j \<Rightarrow>
                     (case stringify j of
                        Inl e \<Rightarrow> (fx, Inl e)
                      | Inr s \<Rightarrow>
                          (fx, Inr \<lparr> content = s, model = Some name, tokensUsed = used \<rparr>))))"

definition mockLLMResponse :: LLMResponse where
  "mockLLMResponse =
     \<lparr> content = mockResponse, model = Some (str ''mock-llm-v1''), tokensUsed = Some (Num 450) \<rparr>"

text \<open>The mock path, after the effects \<open>fx\<close> that came before it.\<close>

definition mockPath :: "effect list \<Rightarrow> effect list \<times> ('e + LLMResponse)" where
  "mockPath fx = (fx @ [ConsoleLog, ConsoleLog, SetTimeout 500], Inr mockLLMResponse)"

text \<open>
  \<^verbatim>\<open>callLLM\<close>, given the module's \<^verbatim>\<open>modelName\<close> and \<^verbatim>\<open>llm\<close>. The result is \<open>Inr\<close> a
  response the promise resolves to, or \<open>Inl\<close> an exception it rejects with.
\<close>

definition callLLM ::
  "jsstring \<Rightarrow> ('j \<Rightarrow> 'e + jsstring) \<Rightarrow> ('e, 'j) ChatAnthropic option \<Rightarrow> jsstring \<Rightarrow>
   jsstring option \<Rightarrow> effect list \<times> ('e + LLMResponse)" where
  "callLLM name stringify llm prompt system =
     (case llm of
        Some client \<Rightarrow>
          (case liveCall name stringify client prompt system of
             (fx, Inr r) \<Rightarrow> (fx, Inr r)
           | (fx, Inl e) \<Rightarrow> mockPath (fx @ [ConsoleError, ConsoleWarn]))
      | None \<Rightarrow> mockPath [])"

text \<open>The module loaded in an environment, then one call.\<close>

definition loadAndCall ::
  "env \<Rightarrow> (jsstring \<Rightarrow> jsstring option \<Rightarrow> 'e + ('e, 'j) ChatAnthropic) \<Rightarrow>
   ('j \<Rightarrow> 'e + jsstring) \<Rightarrow> jsstring \<Rightarrow> jsstring option \<Rightarrow>
   effect list \<times> ('e + LLMResponse)" where
  "loadAndCall env newChatAnthropic stringify prompt system =
     (case initLLM env newChatAnthropic of
        (fx0, llm) \<Rightarrow>
          (case callLLM (modelName env) stringify llm prompt system of
             (fx, r) \<Rightarrow> (fx0 @ fx, r)))"

definition isInvoke :: "effect \<Rightarrow> bool" where
  "isInvoke x = (case x of Invoke _ \<Rightarrow> True | _ \<Rightarrow> False)"

text \<open>The timers of a run, in order.\<close>

definition delays :: "effect list \<Rightarrow> nat list" where
  "delays fx = concat (map (\<lambda>x. case x of SetTimeout ms \<Rightarrow> [ms] | _ \<Rightarrow> []) fx)"

text \<open>
  The effects \<^verbatim>\<open>callLLM\<close> awaits: \<^verbatim>\<open>await llm.invoke(messages)\<close> on the live path and
  \<^verbatim>\<open>await new Promise((resolve) => setTimeout(resolve, 500))\<close> on the mock path. At each
  of them the function is suspended and its caller goes on; console lines are synchronous.
\<close>

definition isAwaited :: "effect \<Rightarrow> bool" where
  "isAwaited x = (case x of Invoke _ \<Rightarrow> True | SetTimeout _ \<Rightarrow> True | _ \<Rightarrow> False)"

definition suspensions :: "effect list \<Rightarrow> effect list" where
  "suspensions fx = filter isAwaited fx"

section \<open>Words for the statements\<close>

text \<open>
  A figure is a non-empty run of decimal digits; a gap stays on one line when it holds no
  line terminator.
\<close>

definition figure :: "jsstring \<Rightarrow> bool" where
  "figure ds = (ds \<noteq> [] \<and> list_all isDigit ds)"

definition sameLine :: "jsstring \<Rightarrow> bool" where
  "sameLine mid = list_all (\<lambda>c. \<not> isLineTerminator c) mid"

text \<open>
  The pattern of label \<open>L\<close> has a match in \<open>t\<close> that starts after \<open>pre\<close>: the label, a gap
  on one line, a figure, the percent sign.
\<close>

definition matchesAfter :: "jsstring \<Rightarrow> jsstring \<Rightarrow> jsstring \<Rightarrow> bool" where
  "matchesAfter L t pre =
     (\<exists>mid ds rest. t = pre @ L @ mid @ ds @ percentSign # rest \<and> sameLine mid \<and> figure ds)"

text \<open>A figure with its percent sign stands in \<open>s\<close> right after \<open>mid\<close>.\<close>

definition figureAfter :: "jsstring \<Rightarrow> jsstring \<Rightarrow> bool" where
  "figureAfter s mid = (\<exists>ds rest. s = mid @ ds @ percentSign # rest \<and> figure ds)"

text \<open>
  In the text \<open>pre @ L @ mid @ ds @ percentSign # rest\<close> the first match of the pattern of
  \<open>L\<close> is the one written: the label after \<open>pre\<close>, the gap \<open>mid\<close>, the figure \<open>ds\<close>. No
  match starts further left, and no figure with its percent sign stands nearer to the label.
\<close>

definition firstMatch ::
  "jsstring \<Rightarrow> jsstring \<Rightarrow> jsstring \<Rightarrow> jsstring \<Rightarrow> jsstring \<Rightarrow> bool" where
  "firstMatch L pre mid ds rest =
     (sameLine mid \<and> figure ds \<and>
      (\<forall>p. length p < length pre \<longrightarrow>
           \<not> matchesAfter L (pre @ L @ mid @ ds @ percentSign # rest) p) \<and>
      (\<forall>m. length m < length mid \<longrightarrow> \<not> figureAfter (mid @ ds @ percentSign # rest) m))"

text \<open>A Number that is a non-negative integer, or positive infinity.\<close>

definition nonNegative :: "number \<Rightarrow> bool" where
  "nonNegative v = (case v of Num i \<Rightarrow> 0 \<le> i | PosInfinity \<Rightarrow> True | _ \<Rightarrow> False)"

section \<open>Trimming the template\<close>

lemma trim_strip:
  assumes "B \<noteq> []" and "\<not> (isWhiteSpace (hd B) \<or> isLineTerminator (hd B))"
    and "\<not> (isWhiteSpace (last B) \<or> isLineTerminator (last B))"
    and "\<forall>c\<in>set p. isWhiteSpace c \<or> isLineTerminator c"
    and "\<forall>c\<in>set q. isWhiteSpace c \<or> isLineTerminator c"
  shows "trim (p @ B @ q) = B"
proof -
  let ?ws = "\<lambda>c. isWhiteSpace c \<or> isLineTerminator c"
  obtain b B' where B: "B = b # B'" using assms(1) by (cases B) auto
  obtain B'' e where B2: "B = B'' @ [e]" using assms(1) by (cases B rule: rev_cases) auto
  have 1: "dropWhile ?ws (p @ B @ q) = B @ q"
    using assms(2,4) B by (simp add: dropWhile_append3 dropWhile_append)
  have 2: "dropWhile ?ws (rev q @ rev B) = rev B"
    using assms(3,5) B2 by (simp add: dropWhile_append)
  show ?thesis by (simp add: trim_def 1 2)
qed

lemma hd_Cons_append: "hd ((c # cs) @ r) = c"
  by simp

lemma Cons_append_ne: "(c # cs) @ r \<noteq> []"
  by simp

lemma hd_body: "hd mockBody = CHR ''B''"
  by (simp only: mockBody_def hd_Cons_append)

lemma last_body: "last mockBody = CHR ''s''"
  by (simp only: mockBody_def last_appendR Cons_append_ne list.distinct not_False_eq_True last.simps if_True if_False list.inject char.inject simp_thms)

lemma body_ne: "mockBody \<noteq> []"
  by (simp only: mockBody_def Cons_append_ne not_False_eq_True)

lemma mockResponse_str: "mockResponse = str mockBody"
proof -
  have "trim (str ''\<newline>'' @ str mockBody @ str ''\<newline>  '') = str mockBody"
    apply (rule trim_strip)
    using body_ne apply (simp add: str_def)
    using body_ne apply (simp add: str_def hd_map hd_body isWhiteSpace_def isLineTerminator_def)
    using body_ne apply (simp add: str_def last_map last_body isWhiteSpace_def isLineTerminator_def)
     apply (simp add: str_def isWhiteSpace_def isLineTerminator_def)
     apply (simp add: str_def isWhiteSpace_def isLineTerminator_def)
    done
  then show ?thesis by (simp add: mockResponse_def mockTemplate_def str_def)
qed

section \<open>Evaluating the patterns on string literals\<close>

text \<open>
  The equations of the matcher for a text \<open>str s\<close>, read off the literal \<open>s\<close> one
  character at a time, and congruence rules that keep the simplifier out of the rest of
  the text.
\<close>

lemma unat_of_char: "unat (of_char c :: codeUnit) = (of_char c :: nat)"
proof -
  have "(of_char c :: nat) mod 256 = of_char c" by (rule of_char_mod_256)
  then have lt: "(of_char c :: nat) < 256"
    by (metis mod_less_divisor zero_less_numeral)
  have "(of_char c :: codeUnit) = of_nat (of_char c)"
    by (simp add: of_nat_of_char)
  then have "unat (of_char c :: codeUnit) = (of_char c :: nat) mod 2 ^ 16"
    by (simp add: unat_of_nat)
  moreover from lt have "(of_char c :: nat) < 65536" by linarith
  ultimately show ?thesis by simp
qed

lemma of_char_codeUnit_eq: "((of_char p :: codeUnit) = of_char c) = (p = c)"
proof
  assume "(of_char p :: codeUnit) = of_char c"
  then have "unat (of_char p :: codeUnit) = unat (of_char c :: codeUnit)" by simp
  then show "p = c" by (simp add: unat_of_char)
qed simp

lemma str_Nil: "str [] = []"
  by (simp add: str_def)

lemma str_Cons: "str (c # cs) = of_char c # str cs"
  by (simp add: str_def)

lemma scan_regexMatch:
  "regexMatch L (str []) = matchHere L (str [])"
  "regexMatch L (str (c # cs)) =
     (case matchHere L (str (c # cs)) of Some ds \<Rightarrow> Some ds | None \<Rightarrow> regexMatch L (str cs))"
  by (simp_all add: str_Nil str_Cons)

lemma scan_matchHere:
  "matchHere (str []) s = matchLazy s"
  "matchHere (str (p # ps)) (str []) = None"
  "matchHere (str (p # ps)) (str (c # cs)) =
     (if p = c then matchHere (str ps) (str cs) else None)"
  by (simp_all add: matchHere_def str_Nil str_Cons of_char_codeUnit_eq)

lemma scan_matchLazy:
  "matchLazy (str []) = None"
  "matchLazy (str (c # cs)) =
     (case matchDigitsPercent (str (c # cs)) of
        Some ds \<Rightarrow> Some ds
      | None \<Rightarrow> if isLineTerminator (of_char c) then None else matchLazy (str cs))"
  by (simp_all add: str_Nil str_Cons)

lemma scan_matchDigitsPercent:
  "matchDigitsPercent (str []) = None"
  "matchDigitsPercent (str (c # cs)) =
     (if isDigit (of_char c) then
        (case matchDigitsPercent (str cs) of
           Some ds \<Rightarrow> Some (of_char c # ds)
         | None \<Rightarrow>
             (case cs of
                [] \<Rightarrow> None
              | p # _ \<Rightarrow> if p = CHR ''%'' then Some [of_char c] else None))
      else None)"
proof -
  show "matchDigitsPercent (str []) = None" by (simp add: str_Nil)
  have pct: "(of_char p = percentSign) = (p = CHR ''%'')" for p
  proof -
    have "percentSign = of_char CHR ''%''" by (simp add: percentSign_def)
    then have "(of_char p = percentSign) = ((of_char p :: codeUnit) = of_char CHR ''%'')"
      by (rule arg_cong)
    then show ?thesis by (simp only: of_char_codeUnit_eq)
  qed
  have nxt: "(case str cs of [] \<Rightarrow> None | p # _ \<Rightarrow> if p = percentSign then Some [x] else None) =
      (case cs of [] \<Rightarrow> None | p # _ \<Rightarrow> if p = CHR ''%'' then Some [x] else None)" for x :: codeUnit
    by (cases cs) (simp_all add: str_Nil str_Cons pct)
  show "matchDigitsPercent (str (c # cs)) =
     (if isDigit (of_char c) then
        (case matchDigitsPercent (str cs) of
           Some ds \<Rightarrow> Some (of_char c # ds)
         | None \<Rightarrow>
             (case cs of
                [] \<Rightarrow> None
              | p # _ \<Rightarrow> if p = CHR ''%'' then Some [of_char c] else None))
      else None)"
    by (simp only: str_Cons matchDigitsPercent.simps(2) nxt)
qed

lemmas scan = scan_regexMatch scan_matchHere scan_matchLazy scan_matchDigitsPercent

lemma hold_regexMatch: "regexMatch L s = regexMatch L s"
  by (rule refl)

lemma hold_matchHere: "matchHere L s = matchHere L s"
  by (rule refl)

lemma hold_matchLazy: "matchLazy s = matchLazy s"
  by (rule refl)

lemma hold_matchDigitsPercent: "matchDigitsPercent s = matchDigitsPercent s"
  by (rule refl)

lemmas hold = hold_regexMatch hold_matchHere hold_matchLazy hold_matchDigitsPercent

lemma str_eq_iff: "(str a = str b) = (a = b)"
proof (induction a arbitrary: b)
  case Nil
  then show ?case by (cases b) (simp_all add: str_Nil str_Cons)
next
  case (Cons x xs)
  then show ?case by (cases b) (simp_all add: str_Nil str_Cons of_char_codeUnit_eq)
qed

section \<open>Rounding to a double\<close>

text \<open>Below \<open>2 ^ 53\<close> the double is the integer itself.\<close>

lemma bitLength_le: "n < 2 ^ k \<Longrightarrow> bitLength n \<le> k"
proof (induction k arbitrary: n)
  case 0
  then show ?case by (simp add: bitLength.simps)
next
  case (Suc k)
  then have "n div 2 < 2 ^ k" by simp
  then have "bitLength (n div 2) \<le> k" by (rule Suc.IH)
  then show ?case by (subst bitLength.simps) simp
qed

lemma roundToDouble_exact: "n < 2 ^ 53 \<Longrightarrow> roundToDouble n = Num (int n)"
proof -
  assume n: "n < 2 ^ 53"
  then have e: "bitLength n - 53 = 0" using bitLength_le [of n 53] by simp
  have "(2::nat) ^ 53 < 2 ^ 1024" by (rule power_strict_increasing) simp_all
  with n have "\<not> 2 ^ 1024 \<le> n" by linarith
  then show ?thesis by (simp add: roundToDouble_def e)
qed

lemma parseInt_small:
  "ds \<noteq> [] \<Longrightarrow> list_all isDigit ds \<Longrightarrow> mathInt ds < 2 ^ 53 \<Longrightarrow> parseInt ds = Num (int (mathInt ds))"
  by (simp add: parseInt_def list_all_iff roundToDouble_exact takeWhile_eq_all_conv [THEN iffD2])

text \<open>From \<open>2 ^ 1024\<close> on the double is infinite.\<close>

lemma bitLength_upper: "n < 2 ^ bitLength n"
proof (induction n rule: bitLength.induct)
  case (1 n)
  show ?case
  proof (cases "n = 0")
    case True
    then show ?thesis by simp
  next
    case False
    with 1 have "n div 2 < 2 ^ bitLength (n div 2)" by simp
    then have "n < 2 * 2 ^ bitLength (n div 2)" by linarith
    with False show ?thesis by (subst bitLength.simps) simp
  qed
qed

lemma bitLength_lower: "0 < n \<Longrightarrow> 2 ^ (bitLength n - 1) \<le> n"
proof (induction n rule: bitLength.induct)
  case (1 n)
  then have n: "n \<noteq> 0" by simp
  show ?case
  proof (cases "n div 2 = 0")
    case True
    then have "bitLength (n div 2) = 0" by (simp add: bitLength.simps)
    with n have "bitLength n = 1" by (subst bitLength.simps) simp
    with 1 show ?thesis by simp
  next
    case False
    with 1 n have ih: "2 ^ (bitLength (n div 2) - 1) \<le> n div 2" by simp
    from False have "bitLength (n div 2) \<noteq> 0" by (subst bitLength.simps) simp
    then obtain k where k: "bitLength (n div 2) = Suc k" by (cases "bitLength (n div 2)") auto
    with ih have "2 * 2 ^ k \<le> 2 * (n div 2)" by simp
    also have "\<dots> \<le> n" by simp
    finally have "2 ^ Suc k \<le> n" by simp
    moreover from n k have "bitLength n = Suc (Suc k)" by (subst bitLength.simps) simp
    ultimately show ?thesis by simp
  qed
qed

lemma roundToDouble_overflow:
  assumes "2 ^ 1024 \<le> n"
  shows "roundToDouble n = PosInfinity"
proof -
  define b where "b = bitLength n"
  define e where "e = b - 53"
  define q where "q = n div 2 ^ e"
  define r where "r = n mod 2 ^ e"
  define q' where "q' = (if 2 ^ e < 2 * r \<or> (2 * r = 2 ^ e \<and> odd q) then q + 1 else q)"
  have lt: "(2::nat) ^ 1024 < 2 ^ b"
    using assms bitLength_upper [of n] unfolding b_def by (rule le_less_trans)
  have "(1::nat) < 2" by simp
  from power_less_imp_less_exp [OF this lt] have b: "1024 < b" .
  then have be: "b - 1 = 52 + e" unfolding e_def by simp
  have "0 < n" using assms by (metis less_le_trans zero_less_numeral zero_less_power)
  then have "2 ^ (b - 1) \<le> n" unfolding b_def by (rule bitLength_lower)
  moreover have pow: "(2::nat) ^ (b - 1) = 2 ^ 52 * 2 ^ e" by (simp only: be power_add)
  ultimately have low: "2 ^ 52 * 2 ^ e \<le> n" by (simp only:)
  then have "2 ^ 52 \<le> q" unfolding q_def by (simp add: less_eq_div_iff_mult_less_eq)
  moreover have "q \<le> q'" unfolding q'_def by simp
  ultimately have "2 ^ 52 \<le> q'" by (rule order_trans)
  then have up: "2 ^ 52 * 2 ^ e \<le> q' * 2 ^ e" by (rule mult_le_mono1)
  have "(2::nat) ^ 1024 \<le> 2 ^ (b - 1)"
    using b by (intro power_increasing) simp_all
  also note pow
  finally have "2 ^ 1024 \<le> q' * 2 ^ e" using up by (rule order_trans)
  then show ?thesis
    unfolding roundToDouble_def Let_def q'_def q_def r_def e_def b_def by simp
qed

lemma mathInt_append: "mathInt (xs @ [d]) = 10 * mathInt xs + digitValue d"
  by (simp add: mathInt_def)

lemma mathInt_zeros: "mathInt (xs @ replicate k 0x0030) = mathInt xs * 10 ^ k"
proof (induction k)
  case 0
  then show ?case by simp
next
  case (Suc k)
  have "mathInt (xs @ replicate (Suc k) 0x0030) = mathInt ((xs @ replicate k 0x0030) @ [0x0030])"
    by (simp add: replicate_append_same)
  also have "\<dots> = 10 * mathInt (xs @ replicate k 0x0030) + digitValue 0x0030"
    by (rule mathInt_append)
  finally show ?case using Suc by (simp add: digitValue_def)
qed

lemmas evalNum = extractPercentage_def parseInt_small mathInt_def digitValue_def isDigit_def
  isLineTerminator_def

section \<open>What the matcher finds\<close>

lemma matchLiteral_iff: "matchLiteral L s = Some r \<longleftrightarrow> s = L @ r"
  by (induction L s rule: matchLiteral.induct) auto

lemma percent_not_digit: "\<not> isDigit percentSign"
  by (simp add: isDigit_def percentSign_def)

lemma matchDigitsPercent_sound:
  "matchDigitsPercent s = Some ds \<Longrightarrow> figure ds \<and> (\<exists>rest. s = ds @ percentSign # rest)"
proof (induction s arbitrary: ds)
  case Nil
  then show ?case by simp
next
  case (Cons c cs)
  show ?case
  proof (cases "matchDigitsPercent cs")
    case None
    have c: "isDigit c"
      using Cons.prems by (cases "isDigit c") simp_all
    with Cons.prems None
    have "(case cs of [] \<Rightarrow> None | p # _ \<Rightarrow> if p = percentSign then Some [c] else None) = Some ds"
      by (simp only: matchDigitsPercent.simps if_True option.case)
    then obtain r where "cs = percentSign # r" and "ds = [c]"
      by (cases cs) (simp_all split: if_splits)
    with c show ?thesis by (simp add: figure_def)
  next
    case (Some d)
    have c: "isDigit c"
      using Cons.prems by (cases "isDigit c") simp_all
    with Cons.prems Some have ds: "ds = c # d"
      by (simp only: matchDigitsPercent.simps if_True option.case option.inject)
    from Cons.IH [OF Some] obtain rest where "figure d" and "cs = d @ percentSign # rest"
      by blast
    with c ds show ?thesis by (simp add: figure_def)
  qed
qed

lemma matchDigitsPercent_complete:
  "figure ds \<Longrightarrow> matchDigitsPercent (ds @ percentSign # rest) = Some ds"
proof (induction ds)
  case Nil
  then show ?case by (simp add: figure_def)
next
  case (Cons d ds)
  then have d: "isDigit d" and all: "list_all isDigit ds" by (simp_all add: figure_def)
  show ?case
  proof (cases ds)
    case Nil
    with d show ?thesis by (simp add: percent_not_digit)
  next
    case (Cons e es)
    with all have "figure ds" by (simp add: figure_def)
    then have "matchDigitsPercent (ds @ percentSign # rest) = Some ds" by (rule Cons.IH)
    with d show ?thesis by simp
  qed
qed

lemma figureAfter_iff:
  "figureAfter s m \<longleftrightarrow> take (length m) s = m \<and> matchDigitsPercent (drop (length m) s) \<noteq> None"
proof
  assume "figureAfter s m"
  then obtain ds rest where "s = m @ ds @ percentSign # rest" and "figure ds"
    by (auto simp: figureAfter_def)
  then show "take (length m) s = m \<and> matchDigitsPercent (drop (length m) s) \<noteq> None"
    by (simp add: matchDigitsPercent_complete)
next
  assume r: "take (length m) s = m \<and> matchDigitsPercent (drop (length m) s) \<noteq> None"
  then obtain ds where "matchDigitsPercent (drop (length m) s) = Some ds" by auto
  then obtain rest where "figure ds" and "drop (length m) s = ds @ percentSign # rest"
    using matchDigitsPercent_sound by blast
  moreover have "s = take (length m) s @ drop (length m) s" by simp
  ultimately have "s = m @ ds @ percentSign # rest \<and> figure ds" using r by metis
  then show "figureAfter s m" by (auto simp: figureAfter_def)
qed

lemma matchLazy_sound:
  "matchLazy s = Some ds \<Longrightarrow>
     \<exists>mid rest. s = mid @ ds @ percentSign # rest \<and> sameLine mid \<and> figure ds"
proof (induction s)
  case Nil
  then show ?case by simp
next
  case (Cons c cs)
  show ?case
  proof (cases "matchDigitsPercent (c # cs)")
    case (Some d)
    with Cons.prems have "d = ds" by simp
    with Some obtain rest where "figure ds" and "c # cs = ds @ percentSign # rest"
      using matchDigitsPercent_sound by blast
    then have "c # cs = [] @ ds @ percentSign # rest \<and> sameLine [] \<and> figure ds"
      by (simp add: sameLine_def)
    then show ?thesis by blast
  next
    case None
    with Cons.prems have c: "\<not> isLineTerminator c" and "matchLazy cs = Some ds"
      by (auto split: if_splits)
    from Cons.IH [OF this(2)] obtain mid rest
      where "cs = mid @ ds @ percentSign # rest" and "sameLine mid" and "figure ds"
      by blast
    with c have "c # cs = (c # mid) @ ds @ percentSign # rest \<and> sameLine (c # mid) \<and> figure ds"
      by (simp add: sameLine_def)
    then show ?thesis by blast
  qed
qed

lemma matchLazy_some:
  "sameLine mid \<Longrightarrow> figure ds \<Longrightarrow> \<exists>d. matchLazy (mid @ ds @ percentSign # rest) = Some d"
proof (induction mid)
  case Nil
  then have "matchDigitsPercent (ds @ percentSign # rest) = Some ds"
    by (simp add: matchDigitsPercent_complete)
  moreover from Nil obtain x xs where "ds @ percentSign # rest = x # xs"
    by (cases ds) (auto simp: figure_def)
  ultimately show ?case by simp
next
  case (Cons c mid)
  then have "\<not> isLineTerminator c" and "sameLine mid" by (simp_all add: sameLine_def)
  with Cons show ?case by (cases "matchDigitsPercent (c # mid @ ds @ percentSign # rest)") auto
qed

lemma matchLazy_nearest:
  assumes "sameLine mid" and "figure ds"
    and "\<forall>m. length m < length mid \<longrightarrow> \<not> figureAfter (mid @ ds @ percentSign # rest) m"
  shows "matchLazy (mid @ ds @ percentSign # rest) = Some ds"
  using assms
proof (induction mid)
  case Nil
  then have "matchDigitsPercent (ds @ percentSign # rest) = Some ds"
    by (simp add: matchDigitsPercent_complete)
  moreover from Nil obtain x xs where "ds @ percentSign # rest = x # xs"
    by (cases ds) (auto simp: figure_def)
  ultimately show ?case by simp
next
  case (Cons c mid)
  let ?s = "mid @ ds @ percentSign # rest"
  from Cons.prems(1) have c: "\<not> isLineTerminator c" and mid: "sameLine mid"
    by (simp_all add: sameLine_def)
  have "\<not> figureAfter (c # ?s) []" using Cons.prems(3) by simp
  then have none: "matchDigitsPercent (c # ?s) = None"
    by (simp add: figureAfter_iff)
  have "\<not> figureAfter ?s m" if "length m < length mid" for m
  proof
    assume "figureAfter ?s m"
    then have "figureAfter (c # ?s) (c # m)" by (auto simp: figureAfter_def)
    moreover have "length (c # m) < length (c # mid)" using that by simp
    ultimately show False using Cons.prems(3) by (metis append_Cons)
  qed
  then have "matchLazy ?s = Some ds" using Cons.IH mid Cons.prems(2) by blast
  with c none show ?case by simp
qed

lemma matchHere_matches: "matchHere L s \<noteq> None \<longleftrightarrow> matchesAfter L s []"
proof
  assume "matchHere L s \<noteq> None"
  then obtain r ds where "s = L @ r" and "matchLazy r = Some ds"
    by (auto simp: matchHere_def matchLiteral_iff split: option.splits)
  then show "matchesAfter L s []"
    using matchLazy_sound [of r ds] by (auto simp: matchesAfter_def)
next
  assume "matchesAfter L s []"
  then obtain mid ds rest where s: "s = L @ mid @ ds @ percentSign # rest"
    and "sameLine mid" and "figure ds"
    by (auto simp: matchesAfter_def)
  then obtain d where "matchLazy (mid @ ds @ percentSign # rest) = Some d"
    using matchLazy_some by blast
  moreover have "matchLiteral L s = Some (mid @ ds @ percentSign # rest)"
    using s by (simp add: matchLiteral_iff)
  ultimately show "matchHere L s \<noteq> None" by (simp add: matchHere_def)
qed

lemma matchesAfter_Cons: "matchesAfter L (c # t) (c # pre) \<longleftrightarrow> matchesAfter L t pre"
  by (simp add: matchesAfter_def)

lemma regexMatch_sound:
  "regexMatch L t = Some ds \<Longrightarrow>
     \<exists>pre mid rest. t = pre @ L @ mid @ ds @ percentSign # rest \<and> sameLine mid \<and> figure ds"
proof (induction t)
  case Nil
  then obtain r where "[] = L @ r" and "matchLazy r = Some ds"
    by (auto simp: matchHere_def matchLiteral_iff split: option.splits)
  then show ?case using matchLazy_sound [of r ds] by auto
next
  case (Cons c cs)
  show ?case
  proof (cases "matchHere L (c # cs)")
    case (Some d)
    with Cons.prems have "d = ds" by simp
    with Some obtain r where "c # cs = L @ r" and "matchLazy r = Some ds"
      by (auto simp: matchHere_def matchLiteral_iff split: option.splits)
    then obtain mid rest where "c # cs = [] @ L @ mid @ ds @ percentSign # rest"
      and "sameLine mid" and "figure ds"
      using matchLazy_sound [of r ds] by auto
    then show ?thesis by blast
  next
    case None
    with Cons.prems have "regexMatch L cs = Some ds" by simp
    from Cons.IH [OF this] obtain pre mid rest
      where "cs = pre @ L @ mid @ ds @ percentSign # rest" and "sameLine mid" and "figure ds"
      by blast
    then have "c # cs = (c # pre) @ L @ mid @ ds @ percentSign # rest \<and> sameLine mid \<and> figure ds"
      by simp
    then show ?thesis by blast
  qed
qed

lemma regexMatch_complete:
  "matchesAfter L t pre \<Longrightarrow> \<exists>d. regexMatch L t = Some d"
proof (induction pre arbitrary: t)
  case Nil
  then have "matchHere L t \<noteq> None" by (rule matchHere_matches [THEN iffD2])
  then show ?case by (cases t) auto
next
  case (Cons c pre)
  then obtain t' where t: "t = c # t'" by (auto simp: matchesAfter_def)
  with Cons.prems have "matchesAfter L t' pre" by (simp add: matchesAfter_Cons)
  then obtain d where "regexMatch L t' = Some d" using Cons.IH by blast
  with t show ?case by (cases "matchHere L (c # t')") auto
qed

lemma regexMatch_leftmost:
  assumes "sameLine mid" and "figure ds"
    and "\<forall>p. length p < length pre \<longrightarrow> \<not> matchesAfter L (pre @ L @ mid @ ds @ percentSign # rest) p"
    and "\<forall>m. length m < length mid \<longrightarrow> \<not> figureAfter (mid @ ds @ percentSign # rest) m"
  shows "regexMatch L (pre @ L @ mid @ ds @ percentSign # rest) = Some ds"
  using assms(3)
proof (induction pre)
  case Nil
  let ?r = "mid @ ds @ percentSign # rest"
  have "matchLazy ?r = Some ds" using assms(1,2,4) by (rule matchLazy_nearest)
  then have "matchHere L (L @ ?r) = Some ds" 
    by (simp add: matchHere_def matchLiteral_iff [THEN iffD2])
  then show ?case by (cases "L @ ?r") auto
next
  case (Cons c pre)
  let ?t = "pre @ L @ mid @ ds @ percentSign # rest"
  have "\<not> matchesAfter L (c # ?t) []" using Cons.prems by simp
  then have none: "matchHere L (c # ?t) = None" using matchHere_matches by blast
  have "\<not> matchesAfter L ?t p" if "length p < length pre" for p
  proof
    assume "matchesAfter L ?t p"
    then have "matchesAfter L (c # ?t) (c # p)" by (simp add: matchesAfter_Cons)
    moreover have "length (c # p) < length (c # pre)" using that by simp
    ultimately show False using Cons.prems by (metis append_Cons)
  qed
  then have "regexMatch L ?t = Some ds" using Cons.IH by blast
  with none show ?case by simp
qed

text \<open>The match that is found is the first one: leftmost start, nearest figure.\<close>

lemma figureAfter_Cons: "figureAfter (c # s) (x # m) \<longleftrightarrow> x = c \<and> figureAfter s m"
  by (auto simp: figureAfter_def)

lemma matchesAfter_Cons_iff:
  "matchesAfter L (c # t) (x # p) \<longleftrightarrow> x = c \<and> matchesAfter L t p"
  by (auto simp: matchesAfter_def)

lemma matchLazy_sound_nearest:
  "matchLazy s = Some ds \<Longrightarrow>
     \<exists>mid rest. s = mid @ ds @ percentSign # rest \<and> sameLine mid \<and> figure ds \<and>
       (\<forall>m. length m < length mid \<longrightarrow> \<not> figureAfter s m)"
proof (induction s)
  case Nil
  then show ?case by simp
next
  case (Cons c cs)
  show ?case
  proof (cases "matchDigitsPercent (c # cs)")
    case (Some d)
    with Cons.prems have "d = ds" by simp
    with Some obtain rest where "figure ds" and "c # cs = ds @ percentSign # rest"
      using matchDigitsPercent_sound by blast
    then have "c # cs = [] @ ds @ percentSign # rest \<and> sameLine [] \<and> figure ds \<and>
        (\<forall>m. length m < length ([] :: jsstring) \<longrightarrow> \<not> figureAfter (c # cs) m)"
      by (simp add: sameLine_def)
    then show ?thesis by blast
  next
    case None
    with Cons.prems have c: "\<not> isLineTerminator c" and "matchLazy cs = Some ds"
      by (auto split: if_splits)
    from Cons.IH [OF this(2)] obtain mid rest
      where cs: "cs = mid @ ds @ percentSign # rest" and mid: "sameLine mid" and ds: "figure ds"
        and near: "\<forall>m. length m < length mid \<longrightarrow> \<not> figureAfter cs m"
      by blast
    have "\<not> figureAfter (c # cs) m" if "length m < length (c # mid)" for m
    proof (cases m)
      case Nil
      with None show ?thesis by (simp add: figureAfter_iff)
    next
      case (Cons x m')
      with that near show ?thesis by (simp add: figureAfter_Cons)
    qed
    with c cs mid ds
    have "c # cs = (c # mid) @ ds @ percentSign # rest \<and> sameLine (c # mid) \<and> figure ds \<and>
        (\<forall>m. length m < length (c # mid) \<longrightarrow> \<not> figureAfter (c # cs) m)"
      by (simp add: sameLine_def)
    then show ?thesis by blast
  qed
qed

lemma matchHere_sound_nearest:
  assumes "matchHere L s = Some ds"
  shows "\<exists>mid rest. s = L @ mid @ ds @ percentSign # rest \<and> firstMatch L [] mid ds rest"
proof -
  from assms obtain r where s: "s = L @ r" and "matchLazy r = Some ds"
    by (auto simp: matchHere_def matchLiteral_iff split: option.splits)
  from matchLazy_sound_nearest [OF this(2)] obtain mid rest
    where "r = mid @ ds @ percentSign # rest" and "sameLine mid" and "figure ds"
      and "\<forall>m. length m < length mid \<longrightarrow> \<not> figureAfter r m"
    by blast
  with s have "s = L @ mid @ ds @ percentSign # rest \<and> firstMatch L [] mid ds rest"
    by (simp add: firstMatch_def)
  then show ?thesis by blast
qed

lemma regexMatch_sound_first:
  "regexMatch L t = Some ds \<Longrightarrow>
     \<exists>pre mid rest. t = pre @ L @ mid @ ds @ percentSign # rest \<and> firstMatch L pre mid ds rest"
proof (induction t)
  case Nil
  then have "matchHere L [] = Some ds" by simp
  from matchHere_sound_nearest [OF this] show ?case by fastforce
next
  case (Cons c cs)
  show ?case
  proof (cases "matchHere L (c # cs)")
    case (Some d)
    with Cons.prems have "matchHere L (c # cs) = Some ds" by simp
    from matchHere_sound_nearest [OF this] show ?thesis by fastforce
  next
    case None
    with Cons.prems have "regexMatch L cs = Some ds" by simp
    from Cons.IH [OF this] obtain pre mid rest
      where cs: "cs = pre @ L @ mid @ ds @ percentSign # rest"
        and first: "firstMatch L pre mid ds rest"
      by blast
    have "\<not> matchesAfter L (c # cs) p" if "length p < length (c # pre)" for p
    proof (cases p)
      case Nil
      with None show ?thesis using matchHere_matches [of L "c # cs"] by simp
    next
      case (Cons x p')
      with that first cs show ?thesis by (simp add: matchesAfter_Cons_iff firstMatch_def)
    qed
    with first cs
    have "c # cs = (c # pre) @ L @ mid @ ds @ percentSign # rest \<and>
        firstMatch L (c # pre) mid ds rest"
      by (simp add: firstMatch_def)
    then show ?thesis by blast
  qed
qed

text \<open>In a first match the figure is a whole run of digits: no digit of the gap precedes it.\<close>

lemma firstMatch_whole:
  assumes "firstMatch L pre mid ds rest" and "mid \<noteq> []"
  shows "\<not> isDigit (last mid)"
proof
  assume d: "isDigit (last mid)"
  from assms(2) obtain m e where mid: "mid = m @ [e]"
    by (cases mid rule: rev_cases) auto
  with d have e: "isDigit e" by simp
  with assms(1) have "figure (e # ds)" by (simp add: firstMatch_def figure_def)
  moreover have "mid @ ds @ percentSign # rest = m @ (e # ds) @ percentSign # rest"
    by (simp add: mid)
  ultimately have "figureAfter (mid @ ds @ percentSign # rest) m"
    unfolding figureAfter_def by blast
  moreover have "length m < length mid" by (simp add: mid)
  ultimately show False using assms(1) by (simp add: firstMatch_def)
qed

section \<open>The value of a search\<close>

lemma roundToDouble_nonNegative: "nonNegative (roundToDouble n)"
  by (simp add: roundToDouble_def nonNegative_def Let_def)

lemma parseInt_figure: "figure ds \<Longrightarrow> parseInt ds = roundToDouble (mathInt ds)"
  by (auto simp: parseInt_def figure_def list_all_iff takeWhile_eq_all_conv [THEN iffD2])

lemma extractPercentage_none:
  "\<not> (\<exists>pre. matchesAfter L t pre) \<Longrightarrow> extractPercentage t L = Num 0"
proof -
  assume no: "\<not> (\<exists>pre. matchesAfter L t pre)"
  have "regexMatch L t = None"
  proof (cases "regexMatch L t")
    case (Some ds)
    then have "\<exists>pre. matchesAfter L t pre"
      using regexMatch_sound [of L t ds] by (auto simp: matchesAfter_def)
    with no show ?thesis by simp
  qed simp
  then show ?thesis by (simp add: extractPercentage_def)
qed

lemma extractPercentage_some:
  assumes "matchesAfter L t pre"
  shows "\<exists>pre mid ds rest. t = pre @ L @ mid @ ds @ percentSign # rest \<and> sameLine mid \<and>
           figure ds \<and> extractPercentage t L = parseInt ds"
proof -
  from assms obtain d where d: "regexMatch L t = Some d"
    using regexMatch_complete by blast
  then have "extractPercentage t L = parseInt d" by (simp add: extractPercentage_def)
  with regexMatch_sound [OF d] show ?thesis by blast
qed

lemma extractPercentage_first:
  assumes "firstMatch L pre mid ds rest"
  shows "extractPercentage (pre @ L @ mid @ ds @ percentSign # rest) L = parseInt ds"
proof -
  from assms have "regexMatch L (pre @ L @ mid @ ds @ percentSign # rest) = Some ds"
    unfolding firstMatch_def by (intro regexMatch_leftmost) blast+
  then show ?thesis by (simp add: extractPercentage_def)
qed

lemma extractPercentage_nonNegative: "nonNegative (extractPercentage t L)"
proof (cases "regexMatch L t")
  case None
  then show ?thesis by (simp add: extractPercentage_def nonNegative_def)
next
  case (Some ds)
  then have "figure ds" using regexMatch_sound by blast
  with Some show ?thesis
    by (simp add: extractPercentage_def parseInt_figure roundToDouble_nonNegative)
qed


text \<open>A sufficient condition for \<open>firstMatch\<close> that can be computed.\<close>

lemma matchesAfter_iff:
  "matchesAfter L t p \<longleftrightarrow> take (length p) t = p \<and> matchHere L (drop (length p) t) \<noteq> None"
proof
  assume "matchesAfter L t p"
  then obtain mid ds rest where t: "t = p @ L @ mid @ ds @ percentSign # rest"
    and "sameLine mid" and "figure ds"
    by (auto simp: matchesAfter_def)
  then have "matchesAfter L (L @ mid @ ds @ percentSign # rest) []"
    by (auto simp: matchesAfter_def)
  then have "matchHere L (L @ mid @ ds @ percentSign # rest) \<noteq> None"
    by (rule matchHere_matches [THEN iffD2])
  with t show "take (length p) t = p \<and> matchHere L (drop (length p) t) \<noteq> None" by simp
next
  assume r: "take (length p) t = p \<and> matchHere L (drop (length p) t) \<noteq> None"
  then have "matchesAfter L (drop (length p) t) []"
    using matchHere_matches by blast
  then obtain mid ds rest where "drop (length p) t = L @ mid @ ds @ percentSign # rest"
    and "sameLine mid" and "figure ds"
    by (auto simp: matchesAfter_def)
  moreover have "t = take (length p) t @ drop (length p) t" by simp
  ultimately have "t = p @ L @ mid @ ds @ percentSign # rest \<and> sameLine mid \<and> figure ds"
    using r by metis
  then show "matchesAfter L t p" by (auto simp: matchesAfter_def)
qed

lemma firstMatchI:
  assumes "sameLine mid" and "figure ds"
    and "list_all (\<lambda>k. matchHere L (drop k (pre @ L @ mid @ ds @ percentSign # rest)) = None)
           [0..<length pre]"
    and "list_all (\<lambda>k. matchDigitsPercent (drop k (mid @ ds @ percentSign # rest)) = None)
           [0..<length mid]"
  shows "firstMatch L pre mid ds rest"
  using assms by (auto simp: firstMatch_def matchesAfter_iff figureAfter_iff list_all_iff)

section \<open>The shape of the result\<close>

text \<open>
  C2. For every text, the empty one included, the keys of the four mappings are exactly the
  fixed enumerations: each enumerated key is there once and reads as a number, and no other
  key is there.
\<close>

theorem key_sets_fixed:
  "ownKeys (age (parseDemographicResponse t)) =
     [str ''0-18'', str ''18-40'', str ''40-65'', str ''65-75'', str ''>75'',
      str ''not_specified''] \<and>
   dom (getProp (age (parseDemographicResponse t))) =
     {str ''0-18'', str ''18-40'', str ''40-65'', str ''65-75'', str ''>75'',
      str ''not_specified''} \<and>
   ownKeys (gender (parseDemographicResponse t)) =
     [str ''male'', str ''female'', str ''not_specified''] \<and>
   dom (getProp (gender (parseDemographicResponse t))) =
     {str ''male'', str ''female'', str ''not_specified''} \<and>
   ownKeys (pregnancyStatus (parseDemographicResponse t)) =
     [str ''pregnant'', str ''not_pregnant'', str ''not_specified''] \<and>
   dom (getProp (pregnancyStatus (parseDemographicResponse t))) =
     {str ''pregnant'', str ''not_pregnant'', str ''not_specified''} \<and>
   ownKeys (geography (parseDemographicResponse t)) =
     [str ''North America'', str ''Europe'', str ''Asia'', str ''Africa'', str ''Other'',
      str ''not_specified''] \<and>
   dom (getProp (geography (parseDemographicResponse t))) =
     {str ''North America'', str ''Europe'', str ''Asia'', str ''Africa'', str ''Other'',
      str ''not_specified''}"
proof -
  have "getProp r = map_of r" for r
    by (rule ext) (simp add: getProp_def)
  then have dom_eq: "dom (getProp r) = set (ownKeys r)" for r
    by (simp add: ownKeys_def dom_map_of_conv_image_fst)
  show ?thesis
    unfolding dom_eq by (simp add: parseDemographicResponse_def ownKeys_def insert_commute)
qed

lemma extractPercentage_empty: "extractPercentage [] (str (c # cs)) = Num 0"
  by (simp add: extractPercentage_def matchHere_def str_Cons)

text \<open>
  C3. On the empty string every percentage of the four mappings is zero, and the list of
  critical findings is the canonical one, of length five.
\<close>

theorem empty_text_parsed:
  "parseDemographicResponse [] =
     \<lparr> age =
         [(str ''0-18'', Num 0), (str ''18-40'', Num 0), (str ''40-65'', Num 0),
          (str ''65-75'', Num 0), (str ''>75'', Num 0), (str ''not_specified'', Num 0)],
       gender = [(str ''male'', Num 0), (str ''female'', Num 0), (str ''not_specified'', Num 0)],
       pregnancyStatus =
         [(str ''pregnant'', Num 0), (str ''not_pregnant'', Num 0),
          (str ''not_specified'', Num 0)],
       geography =
         [(str ''North America'', Num 0), (str ''Europe'', Num 0), (str ''Asia'', Num 0),
          (str ''Africa'', Num 0), (str ''Other'', Num 0), (str ''not_specified'', Num 0)],
       criticalFindings =
         [str ''Complete exclusion of pediatric populations'',
          str ''Systematic exclusion of pregnant individuals'',
          str ''Severe underrepresentation of very elderly (>75)'',
          str ''Complete absence of African populations'',
          str ''Geographic bias toward Western/developed nations''] \<rparr> \<and>
   length (criticalFindings (parseDemographicResponse [])) = 5"
  by (simp add: parseDemographicResponse_def extractPercentage_empty toNumber_def
      roundToDouble_exact)

section \<open>The mock path of \<^verbatim>\<open>callLLM\<close>\<close>

text \<open>
  C4. When the call of the live model throws, whatever the error, \<^verbatim>\<open>callLLM\<close> does not
  reject with it: it resolves to the mock response, whose content is the canned analysis,
  whose model is \<^verbatim>\<open>mock-llm-v1\<close> and whose token count is 450.
\<close>

theorem live_failure_falls_back:
  assumes "client (buildMessages prompt system) = Inl e"
  shows "snd (callLLM name stringify (Some client) prompt system) =
           Inr \<lparr> content = mockResponse, model = Some (str ''mock-llm-v1''),
                 tokensUsed = Some (Num 450) \<rparr>"
  using assms by (simp add: callLLM_def liveCall_def mockPath_def mockLLMResponse_def)

theorem live_failure_falls_back_witness:
  "(\<lambda>_. Inl ()) (buildMessages (str ''prompt'') None) = (Inl () :: unit + unit AIMessage) \<and>
   snd (callLLM (str ''claude'') (\<lambda>_ :: unit. (Inl () :: unit + jsstring))
          (Some (\<lambda>_. Inl ())) (str ''prompt'') None) =
     (Inr \<lparr> content = mockResponse, model = Some (str ''mock-llm-v1''),
            tokensUsed = Some (Num 450) \<rparr> :: unit + LLMResponse)"
  using live_failure_falls_back [of "\<lambda>_. Inl ()" "str ''prompt''" None "()" "str ''claude''"
      "\<lambda>_ :: unit. (Inl () :: unit + jsstring)"]
  by simp

text \<open>
  C5. When \<^verbatim>\<open>ANTHROPIC_API_KEY\<close> is not set, loading the module and calling \<^verbatim>\<open>callLLM\<close>
  never calls \<^verbatim>\<open>llm.invoke\<close>, and for every prompt and system instruction the result is
  the same: the canned analysis, the model \<^verbatim>\<open>mock-llm-v1\<close> and 450 tokens.
\<close>

theorem no_credential_mock:
  assumes "env (str ''ANTHROPIC_API_KEY'') = None"
  shows "\<not> list_ex isInvoke (fst (loadAndCall env newChatAnthropic stringify prompt system)) \<and>
         snd (loadAndCall env newChatAnthropic stringify prompt system) =
           Inr \<lparr> content = mockResponse, model = Some (str ''mock-llm-v1''),
                 tokensUsed = Some (Num 450) \<rparr>"
  using assms
  by (simp add: loadAndCall_def initLLM_def useMockLLM_def callLLM_def mockPath_def
      mockLLMResponse_def isInvoke_def)

theorem no_credential_mock_witness:
  "(\<lambda>_. None) (str ''ANTHROPIC_API_KEY'') = (None :: jsstring option) \<and>
   \<not> list_ex isInvoke
       (fst (loadAndCall (\<lambda>_. None) (\<lambda>_ _. (Inl () :: unit + (unit, unit) ChatAnthropic))
          (\<lambda>_. Inl ()) (str ''prompt'') (Some (str ''system'')))) \<and>
   snd (loadAndCall (\<lambda>_. None) (\<lambda>_ _. (Inl () :: unit + (unit, unit) ChatAnthropic))
          (\<lambda>_. Inl ()) (str ''prompt'') (Some (str ''system''))) =
     Inr \<lparr> content = mockResponse, model = Some (str ''mock-llm-v1''),
           tokensUsed = Some (Num 450) \<rparr>"
  using no_credential_mock [of "\<lambda>_. None"
      "\<lambda>_ _. (Inl () :: unit + (unit, unit) ChatAnthropic)" "\<lambda>_. Inl ()" "str ''prompt''"
      "Some (str ''system'')"]
  by simp

text \<open>
  C8, as the code has it. The delay of the mock path is the constant 500 ms, and nothing of
  the environment, the arguments or the backend enters it. A run that takes the mock path
  (no usable key, a constructor that threw, a live call that threw) awaits exactly one
  timer, of 500 ms; a live call that succeeds awaits none. The two paths suspend the same
  way: the live path awaits \<^verbatim>\<open>llm.invoke\<close>, the mock path awaits the timer, and so every
  run is suspended at least once before it resolves.
\<close>

theorem mock_delay_fixed:
  "set (delays (fst (loadAndCall env newChatAnthropic stringify prompt system))) \<subseteq> {500} \<and>
   (useMockLLM env \<longrightarrow>
      delays (fst (loadAndCall env newChatAnthropic stringify prompt system)) = [500]) \<and>
   (\<not> useMockLLM env \<and>
    newChatAnthropic (modelName env) (env (str ''ANTHROPIC_API_KEY'')) = Inl e \<longrightarrow>
      delays (fst (loadAndCall env newChatAnthropic stringify prompt system)) = [500]) \<and>
   (\<not> useMockLLM env \<and>
    newChatAnthropic (modelName env) (env (str ''ANTHROPIC_API_KEY'')) = Inr client \<and>
    client (buildMessages prompt system) = Inl e \<longrightarrow>
      delays (fst (loadAndCall env newChatAnthropic stringify prompt system)) = [500]) \<and>
   delays (fst (loadAndCall env newChatAnthropic stringify prompt system)) =
     (case snd (initLLM env newChatAnthropic) of
        None \<Rightarrow> [500]
      | Some llm \<Rightarrow>
          (case snd (liveCall (modelName env) stringify llm prompt system) of
             Inl _ \<Rightarrow> [500]
           | Inr _ \<Rightarrow> [])) \<and>
   suspensions (fst (loadAndCall env newChatAnthropic stringify prompt system)) =
     (case snd (initLLM env newChatAnthropic) of
        None \<Rightarrow> [SetTimeout 500]
      | Some llm \<Rightarrow>
          Invoke (buildMessages prompt system) #
          (case snd (liveCall (modelName env) stringify llm prompt system) of
             Inl _ \<Rightarrow> [SetTimeout 500]
           | Inr _ \<Rightarrow> [])) \<and>
   suspensions (fst (loadAndCall env newChatAnthropic stringify prompt system)) \<noteq> []"
proof -
  let ?run = "fst (loadAndCall env newChatAnthropic stringify prompt system)"
  have d: "delays ?run =
     (case snd (initLLM env newChatAnthropic) of
        None \<Rightarrow> [500]
      | Some llm \<Rightarrow>
          (case snd (liveCall (modelName env) stringify llm prompt system) of
             Inl _ \<Rightarrow> [500]
           | Inr _ \<Rightarrow> []))"
    by (auto simp: loadAndCall_def initLLM_def callLLM_def liveCall_def mockPath_def delays_def
        Let_def split: sum.splits option.splits prod.splits if_splits)
  have s: "suspensions ?run =
     (case snd (initLLM env newChatAnthropic) of
        None \<Rightarrow> [SetTimeout 500]
      | Some llm \<Rightarrow>
          Invoke (buildMessages prompt system) #
          (case snd (liveCall (modelName env) stringify llm prompt system) of
             Inl _ \<Rightarrow> [SetTimeout 500]
           | Inr _ \<Rightarrow> []))"
    by (auto simp: loadAndCall_def initLLM_def callLLM_def liveCall_def mockPath_def
        suspensions_def isAwaited_def Let_def
        split: sum.splits option.splits prod.splits if_splits)
  have sub: "set (delays ?run) \<subseteq> {500}"
    unfolding d by (auto split: option.splits sum.splits)
  have m: "delays ?run = [500]" if "useMockLLM env"
    unfolding d using that by (simp add: initLLM_def)
  have c: "delays ?run = [500]"
    if "\<not> useMockLLM env"
      and "newChatAnthropic (modelName env) (env (str ''ANTHROPIC_API_KEY'')) = Inl e"
    unfolding d using that by (simp add: initLLM_def)
  have l: "delays ?run = [500]"
    if "\<not> useMockLLM env"
      and "newChatAnthropic (modelName env) (env (str ''ANTHROPIC_API_KEY'')) = Inr client"
      and "client (buildMessages prompt system) = Inl e"
    unfolding d using that by (simp add: initLLM_def liveCall_def)
  have ne: "suspensions ?run \<noteq> []"
    unfolding s by (simp split: option.splits)
  from sub m c l d s ne show ?thesis by blast
qed

theorem mock_delay_fixed_witness:
  "useMockLLM (\<lambda>_. None) \<and>
   delays (fst (loadAndCall (\<lambda>_. None) (\<lambda>_ _. (Inl () :: unit + (unit, unit) ChatAnthropic))
      (\<lambda>_. Inl ()) [] None)) = [500] \<and>
   \<not> useMockLLM (\<lambda>_. Some (str ''key'')) \<and>
   delays (fst (loadAndCall (\<lambda>_. Some (str ''key''))
      (\<lambda>_ _. (Inl () :: unit + (unit, unit) ChatAnthropic)) (\<lambda>_. Inl ()) [] None)) = [500] \<and>
   delays (fst (loadAndCall (\<lambda>_. Some (str ''key''))
      (\<lambda>_ _. (Inr (\<lambda>_. Inl ()) :: unit + (unit, unit) ChatAnthropic)) (\<lambda>_. Inl ()) [] None)) =
     [500]"
proof -
  have mock: "useMockLLM (\<lambda>_. None)" by (simp add: useMockLLM_def)
  have live: "\<not> useMockLLM (\<lambda>_. Some (str ''key''))" by (simp add: useMockLLM_def str_def)
  from mock mock_delay_fixed [of "\<lambda>_. None"
      "\<lambda>_ _. (Inl () :: unit + (unit, unit) ChatAnthropic)" "\<lambda>_. Inl ()" "[]" None]
  have 1: "delays (fst (loadAndCall (\<lambda>_. None)
      (\<lambda>_ _. (Inl () :: unit + (unit, unit) ChatAnthropic)) (\<lambda>_. Inl ()) [] None)) = [500]"
    by blast
  have "(\<lambda>_ _. (Inl () :: unit + (unit, unit) ChatAnthropic))
      (modelName (\<lambda>_. Some (str ''key''))) ((\<lambda>_. Some (str ''key'')) (str ''ANTHROPIC_API_KEY'')) =
      Inl ()"
    by simp
  with live mock_delay_fixed [of "\<lambda>_. Some (str ''key'')"
      "\<lambda>_ _. (Inl () :: unit + (unit, unit) ChatAnthropic)" "\<lambda>_. Inl ()" "[]" None "()"]
  have 2: "delays (fst (loadAndCall (\<lambda>_. Some (str ''key''))
      (\<lambda>_ _. (Inl () :: unit + (unit, unit) ChatAnthropic)) (\<lambda>_. Inl ()) [] None)) = [500]"
    by blast
  have "(\<lambda>_ _. (Inr (\<lambda>_. Inl ()) :: unit + (unit, unit) ChatAnthropic))
      (modelName (\<lambda>_. Some (str ''key''))) ((\<lambda>_. Some (str ''key'')) (str ''ANTHROPIC_API_KEY'')) =
      Inr (\<lambda>_. Inl ())"
    and "(\<lambda>_. (Inl () :: unit + unit AIMessage)) (buildMessages [] None) = Inl ()"
    by simp_all
  with live mock_delay_fixed [of "\<lambda>_. Some (str ''key'')"
      "\<lambda>_ _. (Inr (\<lambda>_. Inl ()) :: unit + (unit, unit) ChatAnthropic)" "\<lambda>_. Inl ()" "[]" None
      "()" "\<lambda>_. Inl ()"]
  have 3: "delays (fst (loadAndCall (\<lambda>_. Some (str ''key''))
      (\<lambda>_ _. (Inr (\<lambda>_. Inl ()) :: unit + (unit, unit) ChatAnthropic)) (\<lambda>_. Inl ()) [] None)) =
     [500]"
    by blast
  from mock live 1 2 3 show ?thesis by blast
qed

text \<open>
  C8, as the claim has it, fails: no two runs, whatever their environments, constructors,
  arguments and backends, wait on timers of different durations.
\<close>

theorem delay_configurable_counterexample:
  "\<not> (\<exists>(env :: env) (newChatAnthropic :: jsstring \<Rightarrow> jsstring option \<Rightarrow> unit + (unit, unit) ChatAnthropic)
        stringify prompt system env' newChatAnthropic' stringify' prompt' system' d d'.
        d \<in> set (delays (fst (loadAndCall env newChatAnthropic stringify prompt system))) \<and>
        d' \<in> set (delays (fst (loadAndCall env' (newChatAnthropic' :: jsstring \<Rightarrow> jsstring option \<Rightarrow> unit + (unit, unit) ChatAnthropic) stringify' prompt' system'))) \<and>
        d \<noteq> d')"
proof -
  have "d = 500" if "d \<in> set (delays (fst (loadAndCall env nc sf p s)))"
    for d and env :: env and nc :: "jsstring \<Rightarrow> jsstring option \<Rightarrow> unit + (unit, unit) ChatAnthropic"
      and sf p s
    using that
    by (auto simp: loadAndCall_def initLLM_def callLLM_def liveCall_def mockPath_def delays_def
      Let_def split: sum.splits option.splits prod.splits if_splits)
  then show ?thesis by blast
qed

section \<open>Label searches\<close>

text \<open>
  C6, as the code has it. Fourteen of the enumerated keys are each the search for one fixed
  label of the analysis prose (\<open>Pediatric\<close> for \<open>0-18\<close>, and so on); \<open>Other\<close> is the sum of
  two searches; \<open>not_specified\<close> of age and of geography and \<open>not_pregnant\<close> are the
  constant 0 and are not searched. A search for a label \<open>L\<close> is 0 when the text has no
  occurrence of \<open>L\<close> followed on its line by a figure and a percent sign. Otherwise it is
  \<^verbatim>\<open>parseInt\<close> of the figure of the first match: the leftmost such occurrence, the figure
  nearest to it, and the whole of that figure, which no digit of the gap precedes.
\<close>

theorem label_search_values:
  "age (parseDemographicResponse t) =
     [(str ''0-18'', extractPercentage t (str ''Pediatric'')),
      (str ''18-40'', extractPercentage t (str ''Young Adults'')),
      (str ''40-65'', extractPercentage t (str ''Middle-aged Adults'')),
      (str ''65-75'', extractPercentage t (str ''Elderly (65-75)'')),
      (str ''>75'', extractPercentage t (str ''Very Elderly'')),
      (str ''not_specified'', Num 0)] \<and>
   gender (parseDemographicResponse t) =
     [(str ''male'', extractPercentage t (str ''Male'')),
      (str ''female'', extractPercentage t (str ''Female'')),
      (str ''not_specified'', extractPercentage t (str ''Gender not reported''))] \<and>
   pregnancyStatus (parseDemographicResponse t) =
     [(str ''pregnant'', extractPercentage t (str ''Pregnant individuals'')),
      (str ''not_pregnant'', Num 0),
      (str ''not_specified'', extractPercentage t (str ''Pregnancy status not mentioned''))] \<and>
   geography (parseDemographicResponse t) =
     [(str ''North America'', extractPercentage t (str ''North America'')),
      (str ''Europe'', extractPercentage t (str ''Europe'')),
      (str ''Asia'', extractPercentage t (str ''Asia'')),
      (str ''Africa'', extractPercentage t (str ''Africa'')),
      (str ''Other'',
         plus_number (extractPercentage t (str ''South America''))
           (extractPercentage t (str ''Oceania''))),
      (str ''not_specified'', Num 0)] \<and>
   (\<not> (\<exists>pre. matchesAfter L t pre) \<longrightarrow> extractPercentage t L = Num 0) \<and>
   ((\<exists>pre. matchesAfter L t pre) \<longrightarrow>
      (\<exists>pre mid ds rest. t = pre @ L @ mid @ ds @ percentSign # rest \<and> sameLine mid \<and>
         figure ds \<and> firstMatch L pre mid ds rest \<and> extractPercentage t L = parseInt ds)) \<and>
   (firstMatch L pre mid ds rest \<longrightarrow>
      extractPercentage (pre @ L @ mid @ ds @ percentSign # rest) L = parseInt ds \<and>
      parseInt ds = roundToDouble (mathInt ds) \<and>
      (mid \<noteq> [] \<longrightarrow> \<not> isDigit (last mid)))"
proof -
  have none: "\<not> (\<exists>pre. matchesAfter L t pre) \<longrightarrow> extractPercentage t L = Num 0"
    using extractPercentage_none by blast
  have some: "\<exists>pre mid ds rest. t = pre @ L @ mid @ ds @ percentSign # rest \<and> sameLine mid \<and>
         figure ds \<and> firstMatch L pre mid ds rest \<and> extractPercentage t L = parseInt ds"
    if "\<exists>pre. matchesAfter L t pre"
  proof -
    from that obtain d where d: "regexMatch L t = Some d"
      using regexMatch_complete by blast
    then have v: "extractPercentage t L = parseInt d" by (simp add: extractPercentage_def)
    from regexMatch_sound_first [OF d] obtain pre mid rest
      where "t = pre @ L @ mid @ d @ percentSign # rest" and "firstMatch L pre mid d rest"
      by blast
    moreover from this(2) have "sameLine mid \<and> figure d" by (simp add: firstMatch_def)
    ultimately show ?thesis using v by blast
  qed
  have first: "extractPercentage (pre @ L @ mid @ ds @ percentSign # rest) L = parseInt ds \<and>
      parseInt ds = roundToDouble (mathInt ds) \<and> (mid \<noteq> [] \<longrightarrow> \<not> isDigit (last mid))"
    if f: "firstMatch L pre mid ds rest"
  proof -
    from f have "figure ds" by (simp add: firstMatch_def)
    then have "parseInt ds = roundToDouble (mathInt ds)" by (rule parseInt_figure)
    with extractPercentage_first [OF f] firstMatch_whole [OF f] show ?thesis by blast
  qed
  have fields:
    "age (parseDemographicResponse t) =
       [(str ''0-18'', extractPercentage t (str ''Pediatric'')),
        (str ''18-40'', extractPercentage t (str ''Young Adults'')),
        (str ''40-65'', extractPercentage t (str ''Middle-aged Adults'')),
        (str ''65-75'', extractPercentage t (str ''Elderly (65-75)'')),
        (str ''>75'', extractPercentage t (str ''Very Elderly'')),
        (str ''not_specified'', Num 0)] \<and>
     gender (parseDemographicResponse t) =
       [(str ''male'', extractPercentage t (str ''Male'')),
        (str ''female'', extractPercentage t (str ''Female'')),
        (str ''not_specified'', extractPercentage t (str ''Gender not reported''))] \<and>
     pregnancyStatus (parseDemographicResponse t) =
       [(str ''pregnant'', extractPercentage t (str ''Pregnant individuals'')),
        (str ''not_pregnant'', Num 0),
        (str ''not_specified'', extractPercentage t (str ''Pregnancy status not mentioned''))] \<and>
     geography (parseDemographicResponse t) =
       [(str ''North America'', extractPercentage t (str ''North America'')),
        (str ''Europe'', extractPercentage t (str ''Europe'')),
        (str ''Asia'', extractPercentage t (str ''Asia'')),
        (str ''Africa'', extractPercentage t (str ''Africa'')),
        (str ''Other'',
           plus_number (extractPercentage t (str ''South America''))
             (extractPercentage t (str ''Oceania''))),
        (str ''not_specified'', Num 0)]"
    by (simp add: parseDemographicResponse_def)
  from fields none some first show ?thesis by blast
qed

theorem label_search_values_witness:
  "extractPercentage (str ''Male: 25%'') (str ''male'') = Num 0 \<and>
   firstMatch (str ''Male'') [] (str '': '') (str ''25'') [] \<and>
   extractPercentage (str ''Male: 25%'') (str ''Male'') = Num 25 \<and>
   (\<exists>pre mid ds rest.
      str ''Male: 25%'' = pre @ str ''Male'' @ mid @ ds @ percentSign # rest \<and> sameLine mid \<and>
      figure ds \<and> firstMatch (str ''Male'') pre mid ds rest \<and>
      extractPercentage (str ''Male: 25%'') (str ''Male'') = parseInt ds)"
proof -
  let ?t = "str ''Male: 25%''"
  have "regexMatch (str ''male'') ?t = None"
    by (simp add: scan evalNum cong: hold)
  then have absent: "\<not> (\<exists>pre. matchesAfter (str ''male'') ?t pre)"
    using regexMatch_complete [of "str ''male''" ?t] by auto
  have "matchHere (str ''Male'') ?t \<noteq> None"
    by (simp add: scan evalNum cong: hold)
  then have "matchesAfter (str ''Male'') ?t []"
    by (rule matchHere_matches [THEN iffD1])
  then have present: "\<exists>pre. matchesAfter (str ''Male'') ?t pre" ..
  have first: "firstMatch (str ''Male'') [] (str '': '') (str ''25'') []"
    by (rule firstMatchI) code_simp+
  have t: "[] @ str ''Male'' @ str '': '' @ str ''25'' @ percentSign # [] = ?t"
    by (simp add: str_def percentSign_def)
  have v: "roundToDouble (mathInt (str ''25'')) = Num 25"
    by (simp add: mathInt_def digitValue_def str_def roundToDouble_exact)
  from absent label_search_values [of ?t "str ''male''"]
  have a: "extractPercentage ?t (str ''male'') = Num 0" by blast
  from first label_search_values [of _ "str ''Male''" "[]" "str '': ''" "str ''25''" "[]"]
  have "extractPercentage ([] @ str ''Male'' @ str '': '' @ str ''25'' @ percentSign # [])
      (str ''Male'') = roundToDouble (mathInt (str ''25''))"
    by simp
  then have b: "extractPercentage ?t (str ''Male'') = Num 25" by (simp only: t v)
  from present label_search_values [of ?t "str ''Male''"]
  have "\<exists>pre mid ds rest.
      ?t = pre @ str ''Male'' @ mid @ ds @ percentSign # rest \<and> sameLine mid \<and>
      figure ds \<and> firstMatch (str ''Male'') pre mid ds rest \<and>
      extractPercentage ?t (str ''Male'') = parseInt ds"
    by blast
  with a b first show ?thesis by blast
qed

text \<open>
  C6, as the claim has it, fails: the text \<^verbatim>\<open>not_pregnant: 50%\<close> has the enumerated label
  \<open>not_pregnant\<close> followed by 50 and a percent sign, a search for that label finds 50, and
  the value of the key is 0.
\<close>

theorem label_search_counterexample:
  "extractPercentage (str ''not_pregnant: 50%'') (str ''not_pregnant'') = Num 50 \<and>
   getProp (pregnancyStatus (parseDemographicResponse (str ''not_pregnant: 50%'')))
     (str ''not_pregnant'') = Some (Num 0)"
  by (simp add: parseDemographicResponse_def getProp_def scan evalNum str_eq_iff cong: hold)

section \<open>Percentages out of range\<close>




section \<open>The value of \<open>Other\<close>\<close>

text \<open>
  C9, as the code has it. For every text the value of \<open>Other\<close> is what \<^verbatim>\<open>+\<close> gives for the
  searches for \<open>South America\<close> and for \<open>Oceania\<close>, an absent one counting 0: the sum of the
  two integers rounded to a double. That is the sum itself when it is below \<open>2 ^ 53\<close>, and
  positive infinity when one of the two is. In terms of the text: when the first matches of
  the two patterns have the figures \<open>ds\<close> and \<open>ds'\<close>, both below \<open>2 ^ 53\<close>, the value is the
  double nearest to the sum of the two numbers. No pattern holds the label \<open>Other\<close>: when
  the text has a match of neither pattern the value is 0, whatever it says of \<open>Other\<close>.
\<close>

theorem other_is_rounded_sum:
  "getProp (geography (parseDemographicResponse t)) (str ''Other'') =
     Some (plus_number (extractPercentage t (str ''South America''))
             (extractPercentage t (str ''Oceania''))) \<and>
   (\<not> (\<exists>pre. matchesAfter (str ''South America'') t pre) \<and>
    \<not> (\<exists>pre. matchesAfter (str ''Oceania'') t pre) \<longrightarrow>
      getProp (geography (parseDemographicResponse t)) (str ''Other'') = Some (Num 0)) \<and>
   (extractPercentage t (str ''South America'') = Num a \<and>
    extractPercentage t (str ''Oceania'') = Num b \<longrightarrow>
      0 \<le> a \<and> 0 \<le> b \<and>
      getProp (geography (parseDemographicResponse t)) (str ''Other'') =
        Some (roundToDouble (nat (a + b)))) \<and>
   (extractPercentage t (str ''South America'') = Num a \<and>
    extractPercentage t (str ''Oceania'') = Num b \<and> a + b < 2 ^ 53 \<longrightarrow>
      getProp (geography (parseDemographicResponse t)) (str ''Other'') = Some (Num (a + b))) \<and>
   (extractPercentage t (str ''South America'') = PosInfinity \<or>
    extractPercentage t (str ''Oceania'') = PosInfinity \<longrightarrow>
      getProp (geography (parseDemographicResponse t)) (str ''Other'') = Some PosInfinity) \<and>
   (t = pre @ str ''South America'' @ mid @ ds @ percentSign # rest \<and>
    firstMatch (str ''South America'') pre mid ds rest \<and>
    t = pre' @ str ''Oceania'' @ mid' @ ds' @ percentSign # rest' \<and>
    firstMatch (str ''Oceania'') pre' mid' ds' rest' \<and>
    mathInt ds < 2 ^ 53 \<and> mathInt ds' < 2 ^ 53 \<longrightarrow>
      getProp (geography (parseDemographicResponse t)) (str ''Other'') =
        Some (roundToDouble (mathInt ds + mathInt ds')))"
proof -
  let ?sa = "extractPercentage t (str ''South America'')"
  let ?oc = "extractPercentage t (str ''Oceania'')"
  let ?other = "getProp (geography (parseDemographicResponse t)) (str ''Other'')"
  have other: "?other = Some (plus_number ?sa ?oc)"
    by (simp add: parseDemographicResponse_def getProp_def str_eq_iff)
  have sa: "nonNegative ?sa" and oc: "nonNegative ?oc"
    by (rule extractPercentage_nonNegative)+
  have zero: "?other = Some (Num 0)"
    if "\<not> (\<exists>pre. matchesAfter (str ''South America'') t pre) \<and>
        \<not> (\<exists>pre. matchesAfter (str ''Oceania'') t pre)"
    using that other by (simp add: extractPercentage_none toNumber_def roundToDouble_exact)
  have rounded: "0 \<le> a \<and> 0 \<le> b \<and> ?other = Some (roundToDouble (nat (a + b)))"
    if "?sa = Num a \<and> ?oc = Num b" for a b
    using that sa oc other by (simp add: nonNegative_def toNumber_def)
  have exact: "?other = Some (Num (a + b))"
    if ab: "?sa = Num a \<and> ?oc = Num b \<and> a + b < 2 ^ 53" for a b
  proof -
    from ab rounded [of a b]
    have r: "0 \<le> a + b" and o: "?other = Some (roundToDouble (nat (a + b)))" by simp_all
    from r ab have "nat (a + b) < 2 ^ 53" by (simp add: nat_less_iff)
    with r o show ?thesis by (simp add: roundToDouble_exact)
  qed
  have inf: "?other = Some PosInfinity" if "?sa = PosInfinity \<or> ?oc = PosInfinity"
    using that sa oc other
    by (cases ?sa; cases ?oc) (simp_all add: nonNegative_def)
  have texts: "?other = Some (roundToDouble (mathInt ds + mathInt ds'))"
    if h: "t = pre @ str ''South America'' @ mid @ ds @ percentSign # rest \<and>
        firstMatch (str ''South America'') pre mid ds rest \<and>
        t = pre' @ str ''Oceania'' @ mid' @ ds' @ percentSign # rest' \<and>
        firstMatch (str ''Oceania'') pre' mid' ds' rest' \<and>
        mathInt ds < 2 ^ 53 \<and> mathInt ds' < 2 ^ 53"
  proof -
    note t = h [THEN conjunct1, symmetric]
    note f = h [THEN conjunct2, THEN conjunct1]
    note t' = h [THEN conjunct2, THEN conjunct2, THEN conjunct1, symmetric]
    note f' = h [THEN conjunct2, THEN conjunct2, THEN conjunct2, THEN conjunct1]
    note s = h [THEN conjunct2, THEN conjunct2, THEN conjunct2, THEN conjunct2, THEN conjunct1]
    note s' = h [THEN conjunct2, THEN conjunct2, THEN conjunct2, THEN conjunct2, THEN conjunct2]
    from f have "figure ds" by (simp add: firstMatch_def)
    with s have "parseInt ds = Num (int (mathInt ds))"
      by (simp add: parseInt_figure roundToDouble_exact)
    moreover have "?sa = parseInt ds"
      using extractPercentage_first [OF f] by (simp only: t)
    ultimately have a: "?sa = Num (int (mathInt ds))" by simp
    from f' have "figure ds'" by (simp add: firstMatch_def)
    with s' have "parseInt ds' = Num (int (mathInt ds'))"
      by (simp add: parseInt_figure roundToDouble_exact)
    moreover have "?oc = parseInt ds'"
      using extractPercentage_first [OF f'] by (simp only: t')
    ultimately have b: "?oc = Num (int (mathInt ds'))" by simp
    from a b rounded [of "int (mathInt ds)" "int (mathInt ds')"]
    have "?other = Some (roundToDouble (nat (int (mathInt ds) + int (mathInt ds'))))" by simp
    moreover have "nat (int (mathInt ds) + int (mathInt ds')) = mathInt ds + mathInt ds'"
      by (simp add: nat_add_distrib)
    ultimately show ?thesis by simp
  qed
  from other zero rounded exact inf texts show ?thesis by blast
qed

lemma oneAndZeros:
  "figure (str ''1'' @ replicate 309 0x0030) \<and>
   2 ^ 1024 \<le> mathInt (str ''1'' @ replicate 309 0x0030)"
proof -
  have "mathInt (str ''1'' @ replicate 309 0x0030) = mathInt (str ''1'') * 10 ^ 309"
    by (rule mathInt_zeros)
  also have "mathInt (str ''1'') = 1" by (simp add: mathInt_def digitValue_def str_def)
  finally have "mathInt (str ''1'' @ replicate 309 0x0030) = 10 ^ 309" by simp
  then have "2 ^ 1024 \<le> mathInt (str ''1'' @ replicate 309 0x0030)" by simp
  moreover have "figure (str ''1'' @ replicate 309 0x0030)"
    by (simp add: figure_def str_def isDigit_def list_all_iff)
  ultimately show ?thesis by blast
qed

theorem other_is_rounded_sum_witness:
  "getProp (geography (parseDemographicResponse (str ''Other: 50%''))) (str ''Other'') =
     Some (Num 0) \<and>
   extractPercentage (str ''Other: 50%\<newline>South America: 3%\<newline>Oceania: 5%'')
     (str ''South America'') = Num 3 \<and>
   extractPercentage (str ''Other: 50%\<newline>South America: 3%\<newline>Oceania: 5%'')
     (str ''Oceania'') = Num 5 \<and>
   getProp (geography (parseDemographicResponse
      (str ''Other: 50%\<newline>South America: 3%\<newline>Oceania: 5%''))) (str ''Other'') =
     Some (Num 8) \<and>
   firstMatch (str ''South America'') (str ''Other: 50%\<newline>'') (str '': '') (str ''3'')
     (str ''\<newline>Oceania: 5%'') \<and>
   firstMatch (str ''Oceania'') (str ''Other: 50%\<newline>South America: 3%\<newline>'') (str '': '')
     (str ''5'') [] \<and>
   getProp (geography (parseDemographicResponse
      (str ''Other: 50%\<newline>South America: 3%\<newline>Oceania: 5%''))) (str ''Other'') =
     Some (roundToDouble (mathInt (str ''3'') + mathInt (str ''5''))) \<and>
   extractPercentage
     ([] @ str ''South America'' @ str '': '' @ (str ''1'' @ replicate 309 0x0030) @
      percentSign # []) (str ''South America'') = PosInfinity \<and>
   getProp (geography (parseDemographicResponse
      ([] @ str ''South America'' @ str '': '' @ (str ''1'' @ replicate 309 0x0030) @
       percentSign # []))) (str ''Other'') = Some PosInfinity"
proof -
  let ?t = "str ''Other: 50%''"
  let ?u = "str ''Other: 50%\<newline>South America: 3%\<newline>Oceania: 5%''"
  let ?big = "str ''1'' @ replicate 309 0x0030"
  let ?v = "[] @ str ''South America'' @ str '': '' @ ?big @ percentSign # []"
  have "regexMatch (str ''South America'') ?t = None"
    by (simp add: scan evalNum cong: hold)
  then have sa: "\<not> (\<exists>pre. matchesAfter (str ''South America'') ?t pre)"
    using regexMatch_complete [of "str ''South America''" ?t] by auto
  have "regexMatch (str ''Oceania'') ?t = None"
    by (simp add: scan evalNum cong: hold)
  then have oc: "\<not> (\<exists>pre. matchesAfter (str ''Oceania'') ?t pre)"
    using regexMatch_complete [of "str ''Oceania''" ?t] by auto
  from sa oc other_is_rounded_sum [of ?t]
  have 1: "getProp (geography (parseDemographicResponse ?t)) (str ''Other'') = Some (Num 0)"
    by blast
  have a: "extractPercentage ?u (str ''South America'') = Num 3"
    by (simp add: scan evalNum cong: hold)
  have b: "extractPercentage ?u (str ''Oceania'') = Num 5"
    by (simp add: scan evalNum cong: hold)
  have "(3::int) + 5 < 2 ^ 53" by simp
  with a b other_is_rounded_sum [of ?u 3 5]
  have "getProp (geography (parseDemographicResponse ?u)) (str ''Other'') = Some (Num (3 + 5))"
    by blast
  then have 2: "getProp (geography (parseDemographicResponse ?u)) (str ''Other'') = Some (Num 8)"
    by simp
  have f: "firstMatch (str ''South America'') (str ''Other: 50%\<newline>'') (str '': '') (str ''3'')
      (str ''\<newline>Oceania: 5%'')"
    by (rule firstMatchI) code_simp+
  have f': "firstMatch (str ''Oceania'') (str ''Other: 50%\<newline>South America: 3%\<newline>'')
      (str '': '') (str ''5'') []"
    by (rule firstMatchI) code_simp+
  have u: "?u = str ''Other: 50%\<newline>'' @ str ''South America'' @ str '': '' @ str ''3'' @
      percentSign # str ''\<newline>Oceania: 5%''"
    and u': "?u = str ''Other: 50%\<newline>South America: 3%\<newline>'' @ str ''Oceania'' @ str '': '' @
      str ''5'' @ percentSign # []"
    by (simp_all add: str_def percentSign_def)
  have small: "mathInt (str ''3'') < 2 ^ 53" "mathInt (str ''5'') < 2 ^ 53"
    by (simp_all add: mathInt_def digitValue_def str_def)
  from u f u' f' small
    other_is_rounded_sum [of ?u _ _ "str ''Other: 50%\<newline>''" "str '': ''" "str ''3''"
      "str ''\<newline>Oceania: 5%''" "str ''Other: 50%\<newline>South America: 3%\<newline>''" "str '': ''"
      "str ''5''" "[]"]
  have 3: "getProp (geography (parseDemographicResponse ?u)) (str ''Other'') =
      Some (roundToDouble (mathInt (str ''3'') + mathInt (str ''5'')))"
    by blast
  have "sameLine (str '': '')"
    by (simp add: sameLine_def str_def isLineTerminator_def)
  moreover have "list_all (\<lambda>k. matchDigitsPercent (drop k (str '': '' @ ?big @ percentSign # [])) = None)
      [0..<length (str '': '')]"
    by (simp add: str_def isDigit_def upt_rec)
  ultimately have g: "firstMatch (str ''South America'') [] (str '': '') ?big []"
    using oneAndZeros by (intro firstMatchI) simp_all
  have "extractPercentage ?v (str ''South America'') = parseInt ?big"
    using extractPercentage_first [OF g] .
  also have "parseInt ?big = roundToDouble (mathInt ?big)"
    using oneAndZeros by (simp add: parseInt_figure)
  also have "\<dots> = PosInfinity"
    using oneAndZeros by (simp add: roundToDouble_overflow)
  finally have 4: "extractPercentage ?v (str ''South America'') = PosInfinity" .
  with other_is_rounded_sum [of ?v]
  have 5: "getProp (geography (parseDemographicResponse ?v)) (str ''Other'') = Some PosInfinity"
    by blast
  from 1 a b 2 f f' 3 4 5 show ?thesis by blast
qed

text \<open>
  C9, as the claim has it, fails: in the text below the two integers are \<open>2 ^ 53\<close> and 1,
  and the value of \<open>Other\<close> is \<open>2 ^ 53\<close>, not their sum.
\<close>

theorem other_exact_sum_counterexample:
  "extractPercentage (str ''South America: 9007199254740992%\<newline>Oceania: 1%'')
     (str ''South America'') = Num 9007199254740992 \<and>
   extractPercentage (str ''South America: 9007199254740992%\<newline>Oceania: 1%'')
     (str ''Oceania'') = Num 1 \<and>
   getProp (geography (parseDemographicResponse
      (str ''South America: 9007199254740992%\<newline>Oceania: 1%''))) (str ''Other'') =
     Some (Num 9007199254740992) \<and>
   Num 9007199254740992 \<noteq> Num (9007199254740992 + 1)"
proof -
  let ?t = "str ''South America: 9007199254740992%\<newline>Oceania: 1%''"
  have "bitLength 9007199254740992 = 54" by (simp add: bitLength.simps)
  then have r: "roundToDouble 9007199254740992 = Num 9007199254740992"
    by (simp add: roundToDouble_def Let_def)
  have "bitLength 9007199254740993 = 54" by (simp add: bitLength.simps)
  then have r': "roundToDouble 9007199254740993 = Num 9007199254740992"
    by (simp add: roundToDouble_def Let_def)
  have a: "extractPercentage ?t (str ''South America'') = Num 9007199254740992"
    by (simp add: scan extractPercentage_def parseInt_def mathInt_def digitValue_def isDigit_def
        isLineTerminator_def r cong: hold)
  have b: "extractPercentage ?t (str ''Oceania'') = Num 1"
    by (simp add: scan evalNum cong: hold)
  have "getProp (geography (parseDemographicResponse ?t)) (str ''Other'') =
      Some (plus_number (extractPercentage ?t (str ''South America''))
              (extractPercentage ?t (str ''Oceania'')))"
    by (simp add: parseDemographicResponse_def getProp_def str_eq_iff)
  then have "getProp (geography (parseDemographicResponse ?t)) (str ''Other'') =
      Some (Num 9007199254740992)"
    by (simp add: a b toNumber_def r')
  with a b show ?thesis by simp
qed

section \<open>One line, leftmost match\<close>



section \<open>The canned analysis, parsed\<close>

lemmas mockBody_flat = mockBody_def [simplified append_Cons append_Nil]

lemma mock_age:
  "extractPercentage mockResponse (str ''Pediatric'') = Num 0"
  "extractPercentage mockResponse (str ''Young Adults'') = Num 15"
  "extractPercentage mockResponse (str ''Middle-aged Adults'') = Num 60"
  "extractPercentage mockResponse (str ''Elderly (65-75)'') = Num 45"
  "extractPercentage mockResponse (str ''Very Elderly'') = Num 8"
  unfolding mockResponse_str mockBody_flat
  by (simp_all add: scan evalNum cong: hold)

lemma mock_gender:
  "extractPercentage mockResponse (str ''Male'') = Num 42"
  "extractPercentage mockResponse (str ''Female'') = Num 48"
  "extractPercentage mockResponse (str ''Gender not reported'') = Num 10"
  unfolding mockResponse_str mockBody_flat
  by (simp_all add: scan evalNum cong: hold)

lemma mock_pregnancy:
  "extractPercentage mockResponse (str ''Pregnant individuals'') = Num 0"
  "extractPercentage mockResponse (str ''Pregnancy status not mentioned'') = Num 100"
  unfolding mockResponse_str mockBody_flat
  by (simp_all add: scan evalNum cong: hold)

lemma mock_geography:
  "extractPercentage mockResponse (str ''North America'') = Num 52"
  "extractPercentage mockResponse (str ''Europe'') = Num 28"
  "extractPercentage mockResponse (str ''Asia'') = Num 12"
  "extractPercentage mockResponse (str ''Africa'') = Num 0"
  unfolding mockResponse_str mockBody_flat
  by (simp_all add: scan evalNum cong: hold)

lemma mock_other:
  "extractPercentage mockResponse (str ''South America'') = Num 3"
  "extractPercentage mockResponse (str ''Oceania'') = Num 5"
  unfolding mockResponse_str mockBody_flat
  by (simp_all add: scan evalNum cong: hold)

text \<open>
  C1. Applied to the canned analysis of the mock path, \<^verbatim>\<open>parseDemographicResponse\<close>
  returns age 0, 15, 60, 45, 8 and 0 for \<open>not_specified\<close>; gender 42, 48 and 10; pregnancy
  status 0, 0 and 100; geography 52, 28, 12, 0, 8 for \<open>Other\<close>, and 0 for \<open>not_specified\<close>.
\<close>

theorem mock_analysis_parsed:
  "age (parseDemographicResponse mockResponse) =
     [(str ''0-18'', Num 0), (str ''18-40'', Num 15), (str ''40-65'', Num 60),
      (str ''65-75'', Num 45), (str ''>75'', Num 8), (str ''not_specified'', Num 0)] \<and>
   gender (parseDemographicResponse mockResponse) =
     [(str ''male'', Num 42), (str ''female'', Num 48), (str ''not_specified'', Num 10)] \<and>
   pregnancyStatus (parseDemographicResponse mockResponse) =
     [(str ''pregnant'', Num 0), (str ''not_pregnant'', Num 0),
      (str ''not_specified'', Num 100)] \<and>
   geography (parseDemographicResponse mockResponse) =
     [(str ''North America'', Num 52), (str ''Europe'', Num 28), (str ''Asia'', Num 12),
      (str ''Africa'', Num 0), (str ''Other'', Num 8), (str ''not_specified'', Num 0)]"
  by (simp add: parseDemographicResponse_def mock_age mock_gender mock_pregnancy mock_geography
      mock_other toNumber_def roundToDouble_exact)

end
